theory Spec2Isabelle
  imports Complex_Main "HOL-Library.Signed_Division" "HOL-Library.AList"
begin

section \<open>Embedding normalizer\<close>

text \<open>
  Go's \<open>float32\<close> values are modelled by the reals: rounding, overflow and NaN are not
  represented. The functions below follow \<open>cosineSimilarity\<close> and \<open>normalizeFeature\<close>
  of the recognizer source; the \<open>for\<close> loops become recursions that carry the
  accumulators of the loop.
\<close>

fun cosineLoop :: "real list \<Rightarrow> real list \<Rightarrow> real \<times> real \<times> real \<Rightarrow> real \<times> real \<times> real" where
  "cosineLoop (x # xs) (y # ys) (dotProduct, normA, normB) =
     cosineLoop xs ys (dotProduct + x * y, normA + x * x, normB + y * y)"
| "cosineLoop _ _ acc = acc"

definition cosineSimilarity :: "real list \<Rightarrow> real list \<Rightarrow> real" where
  "cosineSimilarity a b =
     (if length a \<noteq> length b then 0
      else (case cosineLoop a b (0, 0, 0) of
              (dotProduct, normA, normB) \<Rightarrow>
                if normA = 0 \<or> normB = 0 then 0
                else dotProduct / (sqrt normA * sqrt normB)))"

fun sumSquares :: "real list \<Rightarrow> real \<Rightarrow> real" where
  "sumSquares [] nrm = nrm"
| "sumSquares (v # vs) nrm = sumSquares vs (nrm + v * v)"

definition normalizeFeature :: "real list \<Rightarrow> real list" where
  "normalizeFeature feature =
     (let nrm = sqrt (sumSquares feature 0)
      in if nrm = 0 then feature else map (\<lambda>v. v / nrm) feature)"


section \<open>Data model\<close>

text \<open>
  Pointers are addresses into an explicit store. A \<open>*Person\<close> is an address of the
  object store \<open>objs\<close>; an address that holds no object stands for \<open>nil\<close>, and
  dereferencing it is the panic \<open>NilDereference\<close>. A \<open>[]float32\<close> slice is the address
  of its backing array in \<open>arrs\<close>; an address never written holds the empty array, as a
  nil slice does. Allocation takes the address \<open>nxt\<close> and advances it. The slice
  \<open>Features\<close> of a \<open>Person\<close> is kept as a value inside the object: no function of the
  package lets two \<open>Person\<close> objects share one backing array of \<open>FaceFeature\<close> entries.
  Mutexes are left out; every function is modelled as one atomic step.
\<close>

type_synonym addr = nat

record FaceFeature =
  PersonID :: string
  Feature :: addr

record Person =
  ID :: string
  Name :: string
  Features :: "FaceFeature list"

record heap =
  objs :: "addr \<rightharpoonup> Person"
  arrs :: "addr \<Rightarrow> real list"
  nxt :: addr

datatype ModelType = ModelOpenFace | ModelFaceNet | ModelArcFace | ModelDlib | ModelCustom

record ModelConfig =
  Type :: ModelType
  InputSize :: "int \<times> int"
  FeatureDim :: int

record PigoParams =
  MinSize :: int
  MaxSize :: int
  ShiftFactor :: real
  ScaleFactor :: real
  QualityThreshold :: real

text \<open>
  Go's \<open>map[string]*Person\<close> is an association list: \<open>map_of\<close> looks a key up, and a
  \<open>range\<close> over the map visits the entries in the order of the list. Go leaves that
  order unspecified; the theorems below hold for every order.
\<close>

record FaceRecognizer =
  modelConfig :: ModelConfig
  persons :: "(string \<times> addr) list"
  threshold :: real
  pigoParams :: PigoParams

record Rectangle =
  MinX :: int
  MinY :: int
  MaxX :: int
  MaxY :: int

text \<open>A detection of the external cascade classifier (\<open>pigo.Detection\<close>).\<close>

record Detection =
  Row :: int
  Col :: int
  Scale :: int
  Q :: real

text \<open>
  The external collaborators are data of the image they are applied to. A \<open>Mat\<close> handed
  to the encoder is described by whether it is empty and by the output blob of the
  network's forward pass on it. A \<open>Frame\<close> is a whole input image: whether
  \<open>img.ToImage()\<close> succeeds, the detections that \<open>RunCascade\<close> followed by
  \<open>ClusterDetections\<close> return for it, and the sub-image \<open>img.Region(rect)\<close>.
\<close>

record Mat =
  Empty :: bool
  Forward :: "real list"

record Frame =
  ToImage :: bool
  Cascade :: "Detection list"
  Region :: "Rectangle \<Rightarrow> Mat"

text \<open>
  The fields \<open>PersonID\<close> and \<open>PersonName\<close> of \<open>RecognizeResult\<close> carry the prefix
  \<open>R_\<close>, since \<open>FaceFeature\<close> has a field \<open>PersonID\<close> too. A parameter \<open>id\<close> of the
  source is written \<open>ident\<close>, and the local \<open>norm\<close> of \<open>normalizeFeature\<close> is \<open>nrm\<close>.
\<close>

record RecognizeResult =
  R_PersonID :: string
  R_PersonName :: string
  Confidence :: real
  BoundingBox :: Rectangle

datatype error =
    PersonExists string
  | PersonNotExist string
  | ConvertFailed
  | NoFaceDetected
  | InputEmpty
  | ExtractFailed error
  | NilDereference
  | PersonNotFound string
  | ReadPersonFailed
  | UnmarshalPersonFailed
  | MarshalPersonFailed
  | WritePersonFailed
  | ReadDirFailed
  | MarshalFailed
  | WriteFailed

section \<open>Recognizer\<close>

text \<open>\<open>image.Rect\<close> orders the corners it is given.\<close>

definition Rect :: "int \<Rightarrow> int \<Rightarrow> int \<Rightarrow> int \<Rightarrow> Rectangle" where
  "Rect x0 y0 x1 y1 =
     \<lparr>MinX = (if x0 > x1 then x1 else x0), MinY = (if y0 > y1 then y1 else y0),
      MaxX = (if x0 > x1 then x0 else x1), MaxY = (if y0 > y1 then y0 else y1)\<rparr>"

text \<open>
  The body of the conversion loop of \<open>DetectFaces\<close>. Go's integer division truncates
  towards zero (\<open>sdiv\<close>); the 64-bit range of \<open>int\<close> is not modelled.
\<close>

definition detRect :: "Detection \<Rightarrow> Rectangle" where
  "detRect det =
     (let x = Col det - Scale det sdiv 2;
          y = Row det - Scale det sdiv 2
      in Rect x y (x + Scale det) (y + Scale det))"

definition DetectFaces :: "FaceRecognizer \<Rightarrow> Frame \<Rightarrow> Rectangle list" where
  "DetectFaces fr img =
     map detRect (filter (\<lambda>det. Q det > QualityThreshold (pigoParams fr)) (Cascade img))"

definition ExtractFeature :: "FaceRecognizer \<Rightarrow> Mat \<Rightarrow> error + real list" where
  "ExtractFeature fr faceImg =
     (if Empty faceImg then Inl InputEmpty
      else Inr (normalizeFeature (Forward faceImg)))"

definition AddPerson :: "FaceRecognizer \<Rightarrow> heap \<Rightarrow> string \<Rightarrow> string \<Rightarrow> error + FaceRecognizer \<times> heap" where
  "AddPerson fr h ident name =
     (case map_of (persons fr) ident of
        Some _ \<Rightarrow> Inl (PersonExists ident)
      | None \<Rightarrow>
          let a = nxt h
          in Inr (fr\<lparr>persons := persons fr @ [(ident, a)]\<rparr>,
                  h\<lparr>objs := (objs h)(a \<mapsto> \<lparr>ID = ident, Name = name, Features = []\<rparr>),
                    nxt := Suc a\<rparr>))"

text \<open>
  \<open>AddFaceSample\<close> returns an error and leaves the store as it was, or returns \<open>nil\<close>
  and the store with the sample appended. The feature slice returned by
  \<open>ExtractFeature\<close> is a newly allocated array.
\<close>

definition AddFaceSample :: "FaceRecognizer \<Rightarrow> heap \<Rightarrow> string \<Rightarrow> Frame \<Rightarrow> error + heap" where
  "AddFaceSample fr h personID img =
     (case map_of (persons fr) personID of
        None \<Rightarrow> Inl (PersonNotExist personID)
      | Some person \<Rightarrow>
          if \<not> ToImage img then Inl ConvertFailed
          else (case DetectFaces fr img of
                  [] \<Rightarrow> Inl NoFaceDetected
                | face0 # _ \<Rightarrow>
                    (case ExtractFeature fr (Region img face0) of
                       Inl err \<Rightarrow> Inl (ExtractFailed err)
                     | Inr feature \<Rightarrow>
                         (case objs h person of
                            None \<Rightarrow> Inl NilDereference
                          | Some p \<Rightarrow>
                              let a = nxt h
                              in Inr (h\<lparr>objs := (objs h)(person \<mapsto>
                                          p\<lparr>Features := Features p @
                                              [\<lparr>PersonID = personID, Feature = a\<rparr>]\<rparr>),
                                        arrs := (arrs h)(a := feature),
                                        nxt := Suc a\<rparr>)))))"

text \<open>The inner loop of \<open>matchPerson\<close>, over the samples of one person.\<close>

fun matchSamples ::
  "real list \<Rightarrow> heap \<Rightarrow> Person \<Rightarrow> FaceFeature list \<Rightarrow> string \<times> string \<times> real \<Rightarrow> string \<times> string \<times> real"
where
  "matchSamples feature h person [] best = best"
| "matchSamples feature h person (sample # rest) (bestPersonID, bestPersonName, bestConfidence) =
     (let similarity = cosineSimilarity feature (arrs h (Feature sample))
      in if similarity > bestConfidence
         then matchSamples feature h person rest (ID person, Name person, similarity)
         else matchSamples feature h person rest (bestPersonID, bestPersonName, bestConfidence))"

text \<open>The outer loop of \<open>matchPerson\<close>, over the entries of \<open>fr.persons\<close>.\<close>

fun matchPersons ::
  "real list \<Rightarrow> heap \<Rightarrow> (string \<times> addr) list \<Rightarrow> string \<times> string \<times> real \<Rightarrow> error + string \<times> string \<times> real"
where
  "matchPersons feature h [] best = Inr best"
| "matchPersons feature h ((k, person) # rest) best =
     (case objs h person of
        None \<Rightarrow> Inl NilDereference
      | Some p \<Rightarrow> matchPersons feature h rest (matchSamples feature h p (Features p) best))"

definition matchPerson :: "FaceRecognizer \<Rightarrow> heap \<Rightarrow> real list \<Rightarrow> error + string \<times> string \<times> real" where
  "matchPerson fr h feature = matchPersons feature h (persons fr) ([], [], 0)"

text \<open>The two branches that build a \<open>RecognizeResult\<close> in the loop of \<open>Recognize\<close>.\<close>

definition recognizeResult ::
  "FaceRecognizer \<Rightarrow> Rectangle \<Rightarrow> string \<times> string \<times> real \<Rightarrow> RecognizeResult" where
  "recognizeResult fr faceRect m =
     (case m of (personID, personName, confidence) \<Rightarrow>
        if confidence \<ge> threshold fr
        then \<lparr>R_PersonID = personID, R_PersonName = personName,
              Confidence = confidence, BoundingBox = faceRect\<rparr>
        else \<lparr>R_PersonID = ''unknown'', R_PersonName = ''Unknown'',
              Confidence = confidence, BoundingBox = faceRect\<rparr>)"

fun recognizeFaces ::
  "FaceRecognizer \<Rightarrow> heap \<Rightarrow> Frame \<Rightarrow> Rectangle list \<Rightarrow> error + RecognizeResult list"
where
  "recognizeFaces fr h img [] = Inr []"
| "recognizeFaces fr h img (faceRect # rest) =
     (case ExtractFeature fr (Region img faceRect) of
        Inl err \<Rightarrow> recognizeFaces fr h img rest
      | Inr feature \<Rightarrow>
          (case matchPerson fr h feature of
             Inl e \<Rightarrow> Inl e
           | Inr m \<Rightarrow>
               (case recognizeFaces fr h img rest of
                  Inl e \<Rightarrow> Inl e
                | Inr results \<Rightarrow> Inr (recognizeResult fr faceRect m # results))))"

definition Recognize :: "FaceRecognizer \<Rightarrow> heap \<Rightarrow> Frame \<Rightarrow> error + RecognizeResult list" where
  "Recognize fr h img =
     (if \<not> ToImage img then Inl ConvertFailed
      else (let faces = DetectFaces fr img
            in if length faces = 0 then Inr [] else recognizeFaces fr h img faces))"

definition GetPerson :: "FaceRecognizer \<Rightarrow> string \<Rightarrow> error + addr" where
  "GetPerson fr ident =
     (case map_of (persons fr) ident of
        None \<Rightarrow> Inl (PersonNotExist ident)
      | Some person \<Rightarrow> Inr person)"

definition ListPersons :: "FaceRecognizer \<Rightarrow> addr list" where
  "ListPersons fr = map snd (persons fr)"

definition GetSampleCount :: "FaceRecognizer \<Rightarrow> heap \<Rightarrow> string \<Rightarrow> error + nat" where
  "GetSampleCount fr h personID =
     (case map_of (persons fr) personID of
        None \<Rightarrow> Inl (PersonNotExist personID)
      | Some person \<Rightarrow>
          (case objs h person of
             None \<Rightarrow> Inl NilDereference
           | Some p \<Rightarrow> Inr (length (Features p))))"

section \<open>Persistence backends\<close>

text \<open>
  The content of a person record, as the JSON document carries it: id, name and the
  list of features, each with its person id and its vector.
\<close>

type_synonym FeatureVal = "string \<times> real list"
type_synonym PersonVal = "string \<times> string \<times> FeatureVal list"

definition featureVal :: "heap \<Rightarrow> FaceFeature \<Rightarrow> FeatureVal" where
  "featureVal h f = (PersonID f, arrs h (Feature f))"

definition personVal :: "heap \<Rightarrow> addr \<Rightarrow> PersonVal option" where
  "personVal h a =
     (case objs h a of
        None \<Rightarrow> None
      | Some p \<Rightarrow> Some (ID p, Name p, map (featureVal h) (Features p)))"

text \<open>
  The package \<open>encoding/json\<close> is external: \<open>json.MarshalIndent\<close> and
  \<open>json.Unmarshal\<close> are parameters, with \<open>None\<close> for a returned error. A nil
  \<open>*Person\<close> inside the map of the single-file backend is marshalled as \<open>null\<close>.
\<close>

record codec =
  marshalPerson :: "PersonVal \<Rightarrow> string option"
  unmarshalPerson :: "string \<Rightarrow> PersonVal option"
  marshalDB :: "(string \<times> PersonVal option) list \<Rightarrow> string option"

text \<open>
  The expression \<open>&Person{ID: person.ID, Name: person.Name, Features: ...}\<close> with the
  \<open>copy\<close> of the feature entries, shared by the three methods of \<open>MemoryStorage\<close>:
  a new object whose entries still point to the arrays of the original.
\<close>

definition copyPerson :: "heap \<Rightarrow> Person \<Rightarrow> addr \<times> heap" where
  "copyPerson h person =
     (let a = nxt h
      in (a, h\<lparr>objs := (objs h)(a \<mapsto>
                  \<lparr>ID = ID person, Name = Name person, Features = Features person\<rparr>),
                nxt := Suc a\<rparr>))"

text \<open>What \<open>json.Unmarshal\<close> builds: new arrays for the vectors, then the object.\<close>

fun allocFeatures :: "heap \<Rightarrow> FeatureVal list \<Rightarrow> FaceFeature list \<times> heap" where
  "allocFeatures h [] = ([], h)"
| "allocFeatures h ((pid, xs) # rest) =
     (let a = nxt h;
          h1 = h\<lparr>arrs := (arrs h)(a := xs), nxt := Suc a\<rparr>
      in (case allocFeatures h1 rest of
            (fs, h2) \<Rightarrow> (\<lparr>PersonID = pid, Feature = a\<rparr> # fs, h2)))"

definition allocPerson :: "heap \<Rightarrow> PersonVal \<Rightarrow> addr \<times> heap" where
  "allocPerson h v =
     (case v of (ident, name, feats) \<Rightarrow>
        (case allocFeatures h feats of
           (fs, h1) \<Rightarrow>
             (let a = nxt h1
              in (a, h1\<lparr>objs := (objs h1)(a \<mapsto> \<lparr>ID = ident, Name = name, Features = fs\<rparr>),
                        nxt := Suc a\<rparr>))))"

subsection \<open>MemoryStorage\<close>

text \<open>The field \<open>persons\<close> of the backend, named apart from the recognizer's.\<close>

record MemoryStorage =
  m_persons :: "(string \<times> addr) list"


definition MemoryStorage_LoadPerson ::
  "MemoryStorage \<Rightarrow> heap \<Rightarrow> string \<Rightarrow> error + addr \<times> heap" where
  "MemoryStorage_LoadPerson s h ident =
     (case map_of (m_persons s) ident of
        None \<Rightarrow> Inl (PersonNotFound ident)
      | Some person \<Rightarrow>
          (case objs h person of
             None \<Rightarrow> Inl NilDereference
           | Some p \<Rightarrow> Inr (copyPerson h p)))"

fun MemoryStorage_loadAll :: "heap \<Rightarrow> (string \<times> addr) list \<Rightarrow> error + addr list \<times> heap" where
  "MemoryStorage_loadAll h [] = Inr ([], h)"
| "MemoryStorage_loadAll h ((k, person) # rest) =
     (case objs h person of
        None \<Rightarrow> Inl NilDereference
      | Some p \<Rightarrow>
          (case copyPerson h p of
             (personCopy, h1) \<Rightarrow>
               (case MemoryStorage_loadAll h1 rest of
                  Inl e \<Rightarrow> Inl e
                | Inr (ps, h2) \<Rightarrow> Inr (personCopy # ps, h2))))"

definition MemoryStorage_LoadAllPersons ::
  "MemoryStorage \<Rightarrow> heap \<Rightarrow> error + addr list \<times> heap" where
  "MemoryStorage_LoadAllPersons s h = MemoryStorage_loadAll h (m_persons s)"

subsection \<open>FileStorage\<close>

text \<open>
  The base directory is flat: \<open>dir\<close> lists its entries by name, in the order in which
  \<open>ioutil.ReadDir\<close> returns them. An entry is a directory, a regular file with its
  bytes, or a file whose read fails. \<open>listable\<close> says whether \<open>ReadDir\<close> succeeds and
  \<open>canWrite\<close> whether \<open>ioutil.WriteFile\<close> to a name succeeds; a successful write leaves
  a readable regular file. Paths are kept relative to \<open>baseDir\<close>; the cleaning done by
  \<open>filepath.Join\<close> is not modelled.
\<close>

datatype node = Directory | File string | Unreadable

record FileStorage =
  baseDir :: string
  dir :: "(string \<times> node) list"
  listable :: bool
  canWrite :: "string \<Rightarrow> bool"

definition getPersonPath :: "FileStorage \<Rightarrow> string \<Rightarrow> string" where
  "getPersonPath s ident = ident @ ''.json''"


definition FileStorage_LoadPerson ::
  "codec \<Rightarrow> FileStorage \<Rightarrow> heap \<Rightarrow> string \<Rightarrow> error + addr \<times> heap" where
  "FileStorage_LoadPerson c s h ident =
     (case map_of (dir s) (getPersonPath s ident) of
        None \<Rightarrow> Inl (PersonNotFound ident)
      | Some (File data) \<Rightarrow>
          (case unmarshalPerson c data of
             None \<Rightarrow> Inl UnmarshalPersonFailed
           | Some v \<Rightarrow> Inr (allocPerson h v))
      | Some _ \<Rightarrow> Inl ReadPersonFailed)"

text \<open>
  \<open>filepath.Ext\<close>: scan from the end of the path up to a separator and return the
  suffix that starts at the first dot met; the empty string when there is none.
\<close>

fun extScan :: "string \<Rightarrow> string \<Rightarrow> string" where
  "extScan [] suffix = []"
| "extScan (c # cs) suffix =
     (if c = CHR ''/'' then []
      else if c = CHR ''.'' then c # suffix
      else extScan cs (c # suffix))"

definition Ext :: "string \<Rightarrow> string" where
  "Ext path = extScan (rev path) []"

fun FileStorage_loadAll ::
  "codec \<Rightarrow> FileStorage \<Rightarrow> heap \<Rightarrow> (string \<times> node) list \<Rightarrow> addr list \<times> heap" where
  "FileStorage_loadAll c s h [] = ([], h)"
| "FileStorage_loadAll c s h ((name, nd) # files) =
     (if nd = Directory \<or> Ext name \<noteq> ''.json'' then FileStorage_loadAll c s h files
      else (let ident = take (length name - 5) name
            in (case FileStorage_LoadPerson c s h ident of
                  Inl err \<Rightarrow> FileStorage_loadAll c s h files
                | Inr (person, h1) \<Rightarrow>
                    (case FileStorage_loadAll c s h1 files of
                       (ps, h2) \<Rightarrow> (person # ps, h2)))))"

definition FileStorage_LoadAllPersons ::
  "codec \<Rightarrow> FileStorage \<Rightarrow> heap \<Rightarrow> error + addr list \<times> heap" where
  "FileStorage_LoadAllPersons c s h =
     (if \<not> listable s then Inl ReadDirFailed
      else Inr (FileStorage_loadAll c s h (dir s)))"

subsection \<open>JSONStorage\<close>

text \<open>
  \<open>j_filepath\<close> and \<open>j_persons\<close> are the fields \<open>filepath\<close> and \<open>persons\<close>.
  \<open>j_file\<close> is the content of the file on disk (\<open>None\<close> when it does not exist) and
  \<open>j_canWrite\<close> says whether \<open>ioutil.WriteFile\<close> to it succeeds.
\<close>

record JSONStorage =
  j_filepath :: string
  j_persons :: "(string \<times> addr) list"
  j_file :: "string option"
  j_canWrite :: bool

definition JSONStorage_save :: "codec \<Rightarrow> JSONStorage \<Rightarrow> heap \<Rightarrow> error option \<times> JSONStorage" where
  "JSONStorage_save c s h =
     (case marshalDB c (map (\<lambda>(k, person). (k, personVal h person)) (j_persons s)) of
        None \<Rightarrow> (Some MarshalFailed, s)
      | Some data \<Rightarrow>
          if j_canWrite s then (None, s\<lparr>j_file := Some data\<rparr>) else (Some WriteFailed, s))"

text \<open>
  \<open>SavePerson\<close> panics on a nil pointer; otherwise it stores the caller's pointer and
  returns what \<open>save\<close> returns, with the map already updated.
\<close>

definition JSONStorage_SavePerson ::
  "codec \<Rightarrow> JSONStorage \<Rightarrow> heap \<Rightarrow> addr \<Rightarrow> error + error option \<times> JSONStorage" where
  "JSONStorage_SavePerson c s h person =
     (case objs h person of
        None \<Rightarrow> Inl NilDereference
      | Some p \<Rightarrow>
          Inr (JSONStorage_save c (s\<lparr>j_persons := AList.update (ID p) person (j_persons s)\<rparr>) h))"

definition JSONStorage_LoadPerson :: "JSONStorage \<Rightarrow> string \<Rightarrow> error + addr" where
  "JSONStorage_LoadPerson s ident =
     (case map_of (j_persons s) ident of
        None \<Rightarrow> Inl (PersonNotFound ident)
      | Some person \<Rightarrow> Inr person)"

definition JSONStorage_LoadAllPersons :: "JSONStorage \<Rightarrow> addr list" where
  "JSONStorage_LoadAllPersons s = map snd (j_persons s)"

section \<open>Notions used in the statements\<close>

text \<open>
  The similarity scores of the stored samples of one person and of a whole registry, and
  the registries whose pointers are all non-nil.
\<close>

definition sampleScores :: "real list \<Rightarrow> heap \<Rightarrow> Person \<Rightarrow> real list" where
  "sampleScores feature h p =
     map (\<lambda>sample. cosineSimilarity feature (arrs h (Feature sample))) (Features p)"

definition allScores :: "real list \<Rightarrow> heap \<Rightarrow> (string \<times> addr) list \<Rightarrow> real list" where
  "allScores feature h ps =
     concat (map (\<lambda>(k, a). case objs h a of None \<Rightarrow> [] | Some p \<Rightarrow> sampleScores feature h p) ps)"

definition validPointers :: "heap \<Rightarrow> (string \<times> addr) list \<Rightarrow> bool" where
  "validPointers h ps = list_all (\<lambda>(k, a). objs h a \<noteq> None) ps"

text \<open>
  A concrete registry: identity A with the sample \<open>[1, 0, 0]\<close> and identity B with the
  sample \<open>[0, 1, 0]\<close>, threshold 0.6, and an image with one detection.
\<close>

definition ex_heap :: heap where
  "ex_heap =
     \<lparr>objs = [0 \<mapsto> \<lparr>ID = ''A'', Name = ''Alice'', Features = [\<lparr>PersonID = ''A'', Feature = 1\<rparr>]\<rparr>,
              2 \<mapsto> \<lparr>ID = ''B'', Name = ''Bob'', Features = [\<lparr>PersonID = ''B'', Feature = 3\<rparr>]\<rparr>],
      arrs = (\<lambda>a. [])(1 := [1, 0, 0], 3 := [0, 1, 0]),
      nxt = 4\<rparr>"

definition ex_config :: ModelConfig where
  "ex_config = \<lparr>Type = ModelOpenFace, InputSize = (96, 96), FeatureDim = 128\<rparr>"

definition ex_pigo :: PigoParams where
  "ex_pigo = \<lparr>MinSize = 100, MaxSize = 1000, ShiftFactor = 1 / 10, ScaleFactor = 11 / 10,
              QualityThreshold = 5\<rparr>"

definition ex_fr :: FaceRecognizer where
  "ex_fr = \<lparr>modelConfig = ex_config, persons = [(''A'', 0), (''B'', 2)],
            threshold = 6 / 10, pigoParams = ex_pigo\<rparr>"

definition ex_fr_A :: FaceRecognizer where
  "ex_fr_A = \<lparr>modelConfig = ex_config, persons = [(''A'', 0)],
            threshold = 6 / 10, pigoParams = ex_pigo\<rparr>"

definition ex_fr_empty :: FaceRecognizer where
  "ex_fr_empty = \<lparr>modelConfig = ex_config, persons = [],
            threshold = 0, pigoParams = ex_pigo\<rparr>"

definition ex_det :: Detection where
  "ex_det = \<lparr>Row = 100, Col = 100, Scale = 100, Q = 10\<rparr>"

definition ex_img :: "real list \<Rightarrow> Frame" where
  "ex_img out = \<lparr>ToImage = True, Cascade = [ex_det],
                 Region = (\<lambda>r. \<lparr>Empty = False, Forward = out\<rparr>)\<rparr>"

text \<open>
  Every allocated object, and every array an object points to, lies below the
  allocation pointer: what the next allocation returns is new.
\<close>

definition heapOK :: "heap \<Rightarrow> bool" where
  "heapOK h =
     (\<forall>a p. objs h a = Some p \<longrightarrow> a < nxt h \<and> (\<forall>f\<in>set (Features p). Feature f < nxt h))"

text \<open>An image with two detections, the second of higher quality and larger.\<close>

definition ex_det_low :: Detection where
  "ex_det_low = \<lparr>Row = 100, Col = 100, Scale = 100, Q = 6\<rparr>"

definition ex_det_high :: Detection where
  "ex_det_high = \<lparr>Row = 300, Col = 300, Scale = 200, Q = 10\<rparr>"

definition ex_img2 :: Frame where
  "ex_img2 = \<lparr>ToImage = True, Cascade = [ex_det_low, ex_det_high],
               Region = (\<lambda>r. if r = detRect ex_det_high
                              then \<lparr>Empty = False, Forward = [0, 1]\<rparr>
                              else \<lparr>Empty = False, Forward = [1, 0]\<rparr>)\<rparr>"

text \<open>
  A caller assigns the fields of the \<open>Person\<close> behind a pointer it holds.
\<close>

definition setPerson :: "heap \<Rightarrow> addr \<Rightarrow> Person \<Rightarrow> heap" where
  "setPerson h a p = h\<lparr>objs := (objs h)(a \<mapsto> p)\<rparr>"

text \<open>
  The records that a scan of the directory is to return: those of the regular files
  named \<open>*.json\<close> whose bytes \<open>json.Unmarshal\<close> accepts, in the order of the listing.
\<close>

fun parsedPersons :: "codec \<Rightarrow> (string \<times> node) list \<Rightarrow> PersonVal list" where
  "parsedPersons c [] = []"
| "parsedPersons c ((name, nd) # files) =
     (case nd of
        File data \<Rightarrow>
          (if Ext name = ''.json''
           then (case unmarshalPerson c data of
                   Some v \<Rightarrow> v # parsedPersons c files
                 | None \<Rightarrow> parsedPersons c files)
           else parsedPersons c files)
      | _ \<Rightarrow> parsedPersons c files)"

text \<open>
  A codec that knows the records of A and B, and a directory with their files and a
  third file that does not parse.
\<close>

definition ex_val_A :: PersonVal where
  "ex_val_A = (''A'', ''Alice'', [(''A'', [1, 0, 0])])"

definition ex_val_B :: PersonVal where
  "ex_val_B = (''B'', ''Bob'', [(''B'', [0, 1, 0])])"

definition ex_codec :: codec where
  "ex_codec =
     \<lparr>marshalPerson = (\<lambda>v. if v = ex_val_A then Some ''{A}''
                            else if v = ex_val_B then Some ''{B}'' else None),
      unmarshalPerson = (\<lambda>data. if data = ''{A}'' then Some ex_val_A
                                 else if data = ''{B}'' then Some ex_val_B else None),
      marshalDB = (\<lambda>db. Some ''{db}'')\<rparr>"

definition ex_fs :: FileStorage where
  "ex_fs = \<lparr>baseDir = ''faces'',
            dir = [(''A.json'', File ''{A}''), (''B.json'', File ''{B}''),
                   (''C.json'', File ''{garbage'')],
            listable = True, canWrite = (\<lambda>name. True)\<rparr>"

text \<open>Backends holding records, and a replacement for the fields of a record.\<close>

definition ex_ms :: MemoryStorage where
  "ex_ms = \<lparr>m_persons = [(''A'', 2)]\<rparr>"

definition ex_js :: JSONStorage where
  "ex_js = \<lparr>j_filepath = ''faces.json'', j_persons = [(''A'', 0), (''B'', 2)],
            j_file = None, j_canWrite = True\<rparr>"

definition ex_js_empty :: JSONStorage where
  "ex_js_empty = \<lparr>j_filepath = ''faces.json'', j_persons = [], j_file = None,
                  j_canWrite = True\<rparr>"

definition ex_ms_AB :: MemoryStorage where
  "ex_ms_AB = \<lparr>m_persons = [(''A'', 0), (''B'', 2)]\<rparr>"

definition ex_mallory :: Person where
  "ex_mallory = \<lparr>ID = ''A'', Name = ''Mallory'', Features = []\<rparr>"

section \<open>Properties\<close>

lemma sumSquares_eq: "sumSquares vs acc = acc + (\<Sum>v\<leftarrow>vs. v * v)"
  by (induction vs arbitrary: acc) simp_all

lemma cosineLoop_eq:
  "length a = length b \<Longrightarrow>
   cosineLoop a b (d, na, nb) =
     (d + (\<Sum>(x, y)\<leftarrow>zip a b. x * y), na + (\<Sum>x\<leftarrow>a. x * x), nb + (\<Sum>y\<leftarrow>b. y * y))"
  by (induction a b arbitrary: d na nb rule: list_induct2) simp_all

subsection \<open>Degenerate inputs of the normalizer\<close>

text \<open>
  Claim C8. \<open>cosineSimilarity\<close> returns exactly 0 for two vectors of different lengths,
  and exactly 0 when the L2 norm of either vector is zero; \<open>normalizeFeature\<close> returns a
  vector of zero norm (a zero vector) unchanged.
\<close>

theorem normalizer_degenerate_inputs:
  "(length a \<noteq> length b \<longrightarrow> cosineSimilarity a b = 0) \<and>
   (sqrt (\<Sum>x\<leftarrow>c. x * x) = 0 \<or> sqrt (\<Sum>y\<leftarrow>d. y * y) = 0 \<longrightarrow> cosineSimilarity c d = 0) \<and>
   (sqrt (\<Sum>x\<leftarrow>v. x * x) = 0 \<longrightarrow> normalizeFeature v = v)"
proof (intro conjI impI)
  assume "length a \<noteq> length b"
  then show "cosineSimilarity a b = 0" by (simp add: cosineSimilarity_def)
next
  assume z: "sqrt (\<Sum>x\<leftarrow>c. x * x) = 0 \<or> sqrt (\<Sum>y\<leftarrow>d. y * y) = 0"
  show "cosineSimilarity c d = 0"
  proof (cases "length c = length d")
    case False
    then show ?thesis by (simp add: cosineSimilarity_def)
  next
    case True
    from z have "(\<Sum>x\<leftarrow>c. x * x) = 0 \<or> (\<Sum>y\<leftarrow>d. y * y) = 0" by simp
    with True show ?thesis
      by (auto simp: cosineSimilarity_def cosineLoop_eq)
  qed
next
  assume "sqrt (\<Sum>x\<leftarrow>v. x * x) = 0"
  then show "normalizeFeature v = v"
    by (simp add: normalizeFeature_def sumSquares_eq)
qed

theorem normalizer_degenerate_inputs_witness:
  "length [1, 0 :: real] \<noteq> length [1, 0, 0 :: real] \<and> cosineSimilarity [1, 0] [1, 0, 0] = 0 \<and>
   sqrt (\<Sum>x\<leftarrow>[0, 0 :: real]. x * x) = 0 \<and> cosineSimilarity [0, 0] [3, 4] = 0 \<and>
   sqrt (\<Sum>x\<leftarrow>[0, 0, 0 :: real]. x * x) = 0 \<and> normalizeFeature [0, 0, 0] = [0, 0, 0]"
  using normalizer_degenerate_inputs [of "[1, 0]" "[1, 0, 0]" "[0, 0]" "[3, 4]" "[0, 0, 0]"]
  by simp

subsection \<open>The matcher\<close>

lemmas ex_defs = ex_heap_def ex_config_def ex_pigo_def ex_fr_def ex_fr_A_def ex_fr_empty_def
  ex_det_def ex_img_def

lemma matchSamples_char:
  "matchSamples feature h p fs (i, n, c) = (i', n', c') \<Longrightarrow>
   c \<le> c' \<and>
   (\<forall>sample\<in>set fs. cosineSimilarity feature (arrs h (Feature sample)) \<le> c') \<and>
   ((c' = c \<and> i' = i \<and> n' = n) \<or>
    (c < c' \<and> (\<exists>sample\<in>set fs. cosineSimilarity feature (arrs h (Feature sample)) = c')
       \<and> i' = ID p \<and> n' = Name p))"
proof (induction fs arbitrary: i n c)
  case Nil
  then show ?case by simp
next
  case (Cons sample rest)
  let ?s = "cosineSimilarity feature (arrs h (Feature sample))"
  show ?case
  proof (cases "?s > c")
    case True
    with Cons.prems have "matchSamples feature h p rest (ID p, Name p, ?s) = (i', n', c')"
      by simp
    from Cons.IH [OF this] True show ?thesis by auto
  next
    case False
    with Cons.prems have "matchSamples feature h p rest (i, n, c) = (i', n', c')"
      by simp
    from Cons.IH [OF this] False show ?thesis by auto
  qed
qed

lemma matchSamples_scores:
  "matchSamples feature h p (Features p) (i, n, c) = (i', n', c') \<Longrightarrow>
   c \<le> c' \<and> (\<forall>s\<in>set (sampleScores feature h p). s \<le> c') \<and>
   ((c' = c \<and> i' = i \<and> n' = n) \<or>
    (c < c' \<and> c' \<in> set (sampleScores feature h p) \<and> i' = ID p \<and> n' = Name p))"
  using matchSamples_char [of feature h p "Features p" i n c i' n' c']
  by (auto simp: sampleScores_def)

lemma matchPersons_char:
  "validPointers h ps \<Longrightarrow>
   \<exists>i' n' c'. matchPersons feature h ps (i, n, c) = Inr (i', n', c') \<and>
     c \<le> c' \<and> (\<forall>s\<in>set (allScores feature h ps). s \<le> c') \<and>
     ((c' = c \<and> i' = i \<and> n' = n) \<or>
      (c < c' \<and> (\<exists>(k, a)\<in>set ps. \<exists>p. objs h a = Some p \<and>
          c' \<in> set (sampleScores feature h p) \<and> i' = ID p \<and> n' = Name p)))"
proof (induction ps arbitrary: i n c)
  case Nil
  then show ?case by (simp add: allScores_def)
next
  case (Cons entry rest)
  obtain k a where entry: "entry = (k, a)" by (cases entry)
  from Cons.prems entry obtain p where p: "objs h a = Some p" and rest: "validPointers h rest"
    by (auto simp: validPointers_def)
  obtain i1 n1 c1 where m1: "matchSamples feature h p (Features p) (i, n, c) = (i1, n1, c1)"
    by (cases "matchSamples feature h p (Features p) (i, n, c)")
  note s1 = matchSamples_scores [OF m1]
  from Cons.IH [OF rest, of i1 n1 c1]
  obtain i' n' c' where r: "matchPersons feature h rest (i1, n1, c1) = Inr (i', n', c')"
    and le: "c1 \<le> c'" and ub: "\<forall>s\<in>set (allScores feature h rest). s \<le> c'"
    and d: "(c' = c1 \<and> i' = i1 \<and> n' = n1) \<or>
      (c1 < c' \<and> (\<exists>(k, a)\<in>set rest. \<exists>p. objs h a = Some p \<and>
          c' \<in> set (sampleScores feature h p) \<and> i' = ID p \<and> n' = Name p))"
    by blast
  have run: "matchPersons feature h (entry # rest) (i, n, c) = Inr (i', n', c')"
    using entry p m1 r by simp
  have scores: "set (allScores feature h (entry # rest)) =
      set (sampleScores feature h p) \<union> set (allScores feature h rest)"
    using entry p by (simp add: allScores_def)
  have a1: "c \<le> c'" using s1 le by linarith
  have a2: "\<forall>s\<in>set (allScores feature h (entry # rest)). s \<le> c'"
    using scores s1 le ub by fastforce
  have a3: "(c' = c \<and> i' = i \<and> n' = n) \<or>
      (c < c' \<and> (\<exists>(k, a)\<in>set (entry # rest). \<exists>p. objs h a = Some p \<and>
          c' \<in> set (sampleScores feature h p) \<and> i' = ID p \<and> n' = Name p))"
  proof -
    from d show ?thesis
    proof
      assume e: "c' = c1 \<and> i' = i1 \<and> n' = n1"
      from s1 show ?thesis
      proof (elim conjE disjE)
        assume "c1 = c" "i1 = i" "n1 = n"
        with e show ?thesis by simp
      next
        assume "c < c1" "c1 \<in> set (sampleScores feature h p)" "i1 = ID p" "n1 = Name p"
        with e entry p show ?thesis by auto
      qed
    next
      assume e: "c1 < c' \<and> (\<exists>(k, a)\<in>set rest. \<exists>p. objs h a = Some p \<and>
          c' \<in> set (sampleScores feature h p) \<and> i' = ID p \<and> n' = Name p)"
      then have "c < c'" using s1 by linarith
      with e show ?thesis by auto
    qed
  qed
  from run a1 a2 a3 show ?case by blast
qed


lemma matchPersons_mono:
  "matchPersons feature h ps (i, n, c) = Inr (i', n', c') \<Longrightarrow> c \<le> c'"
proof (induction ps arbitrary: i n c)
  case Nil
  then show ?case by simp
next
  case (Cons entry rest)
  obtain k a where entry: "entry = (k, a)" by (cases entry)
  from Cons.prems entry obtain p where p: "objs h a = Some p"
    by (cases "objs h a") auto
  obtain i1 n1 c1 where m1: "matchSamples feature h p (Features p) (i, n, c) = (i1, n1, c1)"
    by (cases "matchSamples feature h p (Features p) (i, n, c)")
  from Cons.prems entry p m1 have "matchPersons feature h rest (i1, n1, c1) = Inr (i', n', c')"
    by simp
  from Cons.IH [OF this] matchSamples_scores [OF m1] show ?case by linarith
qed

lemma recognizeFaces_results:
  "recognizeFaces fr h img faces = Inr rs \<Longrightarrow>
   \<forall>r\<in>set rs. \<exists>faceRect\<in>set faces. \<exists>feature m.
      ExtractFeature fr (Region img faceRect) = Inr feature \<and>
      matchPerson fr h feature = Inr m \<and> r = recognizeResult fr faceRect m"
proof (induction faces arbitrary: rs)
  case Nil
  then show ?case by simp
next
  case (Cons faceRect rest)
  show ?case
  proof (cases "ExtractFeature fr (Region img faceRect)")
    case (Inl err)
    with Cons.prems have "recognizeFaces fr h img rest = Inr rs" by simp
    from Cons.IH [OF this] show ?thesis by auto
  next
    case (Inr feature)
    with Cons.prems obtain m results where m: "matchPerson fr h feature = Inr m"
      and r: "recognizeFaces fr h img rest = Inr results"
      and rs: "rs = recognizeResult fr faceRect m # results"
      by (auto split: sum.splits)
    have here: "\<exists>fR\<in>set (faceRect # rest). \<exists>feature m'.
        ExtractFeature fr (Region img fR) = Inr feature \<and>
        matchPerson fr h feature = Inr m' \<and>
        recognizeResult fr faceRect m = recognizeResult fr fR m'"
      using Inr m by (intro bexI [of _ faceRect] exI [of _ feature] exI [of _ m]) simp_all
    from Cons.IH [OF r] have there: "\<forall>r\<in>set results. \<exists>fR\<in>set (faceRect # rest). \<exists>feature m'.
        ExtractFeature fr (Region img fR) = Inr feature \<and>
        matchPerson fr h feature = Inr m' \<and> r = recognizeResult fr fR m'"
      by (meson list.set_intros(2))
    from here there show ?thesis unfolding rs by simp
  qed
qed

lemma Recognize_results:
  "Recognize fr h img = Inr rs \<Longrightarrow>
   \<forall>r\<in>set rs. \<exists>faceRect\<in>set (DetectFaces fr img). \<exists>feature m.
      ExtractFeature fr (Region img faceRect) = Inr feature \<and>
      matchPerson fr h feature = Inr m \<and> r = recognizeResult fr faceRect m"
proof -
  assume a: "Recognize fr h img = Inr rs"
  show ?thesis
  proof (cases "DetectFaces fr img = []")
    case True
    with a have "rs = []" by (simp add: Recognize_def split: if_splits)
    then show ?thesis by simp
  next
    case False
    with a have "recognizeFaces fr h img (DetectFaces fr img) = Inr rs"
      by (simp add: Recognize_def Let_def split: if_splits)
    then show ?thesis by (rule recognizeFaces_results)
  qed
qed

text \<open>
  Claim C1, amended. For a registry without nil pointers, \<open>matchPerson\<close> returns the
  larger of 0 and the maximum cosine similarity over all stored samples of all
  identities. When that score is positive, the id and name returned are those of a
  stored person owning a sample with that score; when it is 0 they are empty.
  \<open>Recognize\<close> reports the returned id, name and score when the score reaches the
  threshold, and \<open>unknown\<close> with the same score otherwise. On an empty registry the
  score is 0. Every result of \<open>Recognize\<close> is built this way from the feature of a
  detected face.
\<close>

theorem matcher_best_score:
  assumes wf: "validPointers h (persons fr)"
  shows "(\<exists>pid pname conf.
      matchPerson fr h feature = Inr (pid, pname, conf) \<and>
      conf = Max (insert 0 (set (allScores feature h (persons fr)))) \<and>
      (0 < conf \<longrightarrow> (\<exists>(k, a)\<in>set (persons fr). \<exists>p. objs h a = Some p \<and>
          conf \<in> set (sampleScores feature h p) \<and> pid = ID p \<and> pname = Name p)) \<and>
      (conf = 0 \<longrightarrow> pid = [] \<and> pname = []) \<and>
      recognizeResult fr rect (pid, pname, conf) =
        (if threshold fr \<le> conf
         then \<lparr>R_PersonID = pid, R_PersonName = pname, Confidence = conf, BoundingBox = rect\<rparr>
         else \<lparr>R_PersonID = ''unknown'', R_PersonName = ''Unknown'', Confidence = conf,
               BoundingBox = rect\<rparr>) \<and>
      (persons fr = [] \<longrightarrow> conf = 0)) \<and>
    (\<forall>rs. Recognize fr h img = Inr rs \<longrightarrow>
       (\<forall>r\<in>set rs. \<exists>faceRect\<in>set (DetectFaces fr img). \<exists>query m.
          ExtractFeature fr (Region img faceRect) = Inr query \<and>
          matchPerson fr h query = Inr m \<and> r = recognizeResult fr faceRect m))"
proof (rule conjI)
  from matchPersons_char [OF wf, of feature "[]" "[]" 0]
  obtain pid pname conf where run: "matchPerson fr h feature = Inr (pid, pname, conf)"
    and le: "0 \<le> conf" and ub: "\<forall>s\<in>set (allScores feature h (persons fr)). s \<le> conf"
    and d: "(conf = 0 \<and> pid = [] \<and> pname = []) \<or>
      (0 < conf \<and> (\<exists>(k, a)\<in>set (persons fr). \<exists>p. objs h a = Some p \<and>
          conf \<in> set (sampleScores feature h p) \<and> pid = ID p \<and> pname = Name p))"
    unfolding matchPerson_def by blast
  have mem: "conf \<in> insert 0 (set (allScores feature h (persons fr)))"
  proof (cases "conf = 0")
    case True
    then show ?thesis by simp
  next
    case False
    with d obtain k a p where "(k, a) \<in> set (persons fr)" "objs h a = Some p"
      "conf \<in> set (sampleScores feature h p)" by auto
    then have "conf \<in> set (allScores feature h (persons fr))"
      by (force simp: allScores_def)
    then show ?thesis by simp
  qed
  have mx: "conf = Max (insert 0 (set (allScores feature h (persons fr))))"
  proof (rule sym, rule Max_eqI)
    show "finite (insert 0 (set (allScores feature h (persons fr))))" by simp
    show "\<And>y. y \<in> insert 0 (set (allScores feature h (persons fr))) \<Longrightarrow> y \<le> conf"
      using le ub by auto
    show "conf \<in> insert 0 (set (allScores feature h (persons fr)))" by (rule mem)
  qed
  have pos: "0 < conf \<longrightarrow> (\<exists>(k, a)\<in>set (persons fr). \<exists>p. objs h a = Some p \<and>
          conf \<in> set (sampleScores feature h p) \<and> pid = ID p \<and> pname = Name p)"
    using d by auto
  have zero: "conf = 0 \<longrightarrow> pid = [] \<and> pname = []" using d by auto
  have res: "recognizeResult fr rect (pid, pname, conf) =
        (if threshold fr \<le> conf
         then \<lparr>R_PersonID = pid, R_PersonName = pname, Confidence = conf, BoundingBox = rect\<rparr>
         else \<lparr>R_PersonID = ''unknown'', R_PersonName = ''Unknown'', Confidence = conf,
               BoundingBox = rect\<rparr>)"
    by (simp add: recognizeResult_def)
  have emp: "persons fr = [] \<longrightarrow> conf = 0"
    using run by (auto simp: matchPerson_def)
  from run mx pos zero res emp
  show "\<exists>pid pname conf.
      matchPerson fr h feature = Inr (pid, pname, conf) \<and>
      conf = Max (insert 0 (set (allScores feature h (persons fr)))) \<and>
      (0 < conf \<longrightarrow> (\<exists>(k, a)\<in>set (persons fr). \<exists>p. objs h a = Some p \<and>
          conf \<in> set (sampleScores feature h p) \<and> pid = ID p \<and> pname = Name p)) \<and>
      (conf = 0 \<longrightarrow> pid = [] \<and> pname = []) \<and>
      recognizeResult fr rect (pid, pname, conf) =
        (if threshold fr \<le> conf
         then \<lparr>R_PersonID = pid, R_PersonName = pname, Confidence = conf, BoundingBox = rect\<rparr>
         else \<lparr>R_PersonID = ''unknown'', R_PersonName = ''Unknown'', Confidence = conf,
               BoundingBox = rect\<rparr>) \<and>
      (persons fr = [] \<longrightarrow> conf = 0)"
    by blast
next
  show "\<forall>rs. Recognize fr h img = Inr rs \<longrightarrow>
       (\<forall>r\<in>set rs. \<exists>faceRect\<in>set (DetectFaces fr img). \<exists>query m.
          ExtractFeature fr (Region img faceRect) = Inr query \<and>
          matchPerson fr h query = Inr m \<and> r = recognizeResult fr faceRect m)"
    using Recognize_results by blast
qed

theorem matcher_best_score_witness:
  "validPointers ex_heap (persons ex_fr) \<and>
   matchPerson ex_fr ex_heap [1, 0, 0] = Inr (''A'', ''Alice'', 1) \<and>
   Max (insert 0 (set (allScores [1, 0, 0] ex_heap (persons ex_fr)))) = 1 \<and>
   validPointers ex_heap (persons ex_fr_empty) \<and>
   matchPerson ex_fr_empty ex_heap [1, 0, 0] = Inr ([], [], 0)"
  using matcher_best_score [of ex_heap ex_fr "[1, 0, 0]"]
    matcher_best_score [of ex_heap ex_fr_empty "[1, 0, 0]"]
  by (simp add: validPointers_def matchPerson_def allScores_def sampleScores_def ex_defs
      cosineSimilarity_def)

text \<open>
  Claim C1 as stated fails. With the single stored sample \<open>[1, 0, 0]\<close> and the query
  \<open>[-1, 0, 0]\<close> the maximum similarity over the stored samples is \<open>-1\<close>, and the result
  carries the score 0. On an empty registry with threshold 0 the result carries the
  empty id and name, not \<open>unknown\<close>.
\<close>

theorem matcher_best_score_counterexample:
  "allScores [-1, 0, 0] ex_heap (persons ex_fr_A) = [-1] \<and>
   Recognize ex_fr_A ex_heap (ex_img [-1, 0, 0]) =
     Inr [\<lparr>R_PersonID = ''unknown'', R_PersonName = ''Unknown'', Confidence = 0,
           BoundingBox = \<lparr>MinX = 50, MinY = 50, MaxX = 150, MaxY = 150\<rparr>\<rparr>] \<and>
   persons ex_fr_empty = [] \<and> threshold ex_fr_empty = 0 \<and>
   Recognize ex_fr_empty ex_heap (ex_img [1, 0, 0]) =
     Inr [\<lparr>R_PersonID = [], R_PersonName = [], Confidence = 0,
           BoundingBox = \<lparr>MinX = 50, MinY = 50, MaxX = 150, MaxY = 150\<rparr>\<rparr>]"
  by (simp add: Recognize_def DetectFaces_def detRect_def Rect_def ExtractFeature_def
      normalizeFeature_def recognizeResult_def matchPerson_def ex_defs cosineSimilarity_def
      signed_divide_int_def Let_def allScores_def sampleScores_def)

subsection \<open>The confidence is never negative\<close>

text \<open>
  Claim C10. Whenever \<open>matchPerson\<close> returns, its confidence is at least 0, and it
  returns on every registry without nil pointers; the confidence of every result of
  \<open>Recognize\<close> is at least 0. The loop over the samples of a person whose
  similarities to the query are all negative leaves the best match found so far as it
  is, and a query whose similarity to every stored sample is negative yields the
  empty id and name with confidence 0.
\<close>

theorem confidence_nonnegative:
  "(\<forall>pid pname conf. matchPerson fr h feature = Inr (pid, pname, conf) \<longrightarrow> 0 \<le> conf) \<and>
   (validPointers h (persons fr) \<longrightarrow> (\<exists>m. matchPerson fr h feature = Inr m)) \<and>
   (\<forall>rs. Recognize fr h img = Inr rs \<longrightarrow> (\<forall>r\<in>set rs. 0 \<le> Confidence r)) \<and>
   ((\<forall>s\<in>set (sampleScores feature h p). s < 0) \<and> 0 \<le> c \<longrightarrow>
      matchSamples feature h p (Features p) (i, n, c) = (i, n, c)) \<and>
   (validPointers h (persons fr) \<and> (\<forall>s\<in>set (allScores feature h (persons fr)). s < 0) \<longrightarrow>
      matchPerson fr h feature = Inr ([], [], 0))"
proof (intro conjI)
  show nonneg: "\<forall>pid pname conf. matchPerson fr h feature = Inr (pid, pname, conf) \<longrightarrow> 0 \<le> conf"
    for feature
    unfolding matchPerson_def using matchPersons_mono by blast
  show "validPointers h (persons fr) \<longrightarrow> (\<exists>m. matchPerson fr h feature = Inr m)"
    unfolding matchPerson_def using matchPersons_char [of h "persons fr" feature "[]" "[]" 0]
    by blast
  show "\<forall>rs. Recognize fr h img = Inr rs \<longrightarrow> (\<forall>r\<in>set rs. 0 \<le> Confidence r)"
  proof (intro allI impI ballI)
    fix rs r
    assume "Recognize fr h img = Inr rs" and "r \<in> set rs"
    with Recognize_results [of fr h img rs]
    obtain faceRect query m where m: "matchPerson fr h query = Inr m"
      and r: "r = recognizeResult fr faceRect m"
      by blast
    obtain pid pname conf where mm: "m = (pid, pname, conf)" by (cases m)
    with m nonneg [of query] have "0 \<le> conf" by blast
    with r mm show "0 \<le> Confidence r" by (simp add: recognizeResult_def)
  qed
  show "(\<forall>s\<in>set (sampleScores feature h p). s < 0) \<and> 0 \<le> c \<longrightarrow>
      matchSamples feature h p (Features p) (i, n, c) = (i, n, c)"
  proof
    assume a: "(\<forall>s\<in>set (sampleScores feature h p). s < 0) \<and> 0 \<le> c"
    obtain i' n' c' where m: "matchSamples feature h p (Features p) (i, n, c) = (i', n', c')"
      by (cases "matchSamples feature h p (Features p) (i, n, c)")
    from matchSamples_scores [OF m] a have "c' = c \<and> i' = i \<and> n' = n"
      by force
    with m show "matchSamples feature h p (Features p) (i, n, c) = (i, n, c)" by simp
  qed
  show "validPointers h (persons fr) \<and> (\<forall>s\<in>set (allScores feature h (persons fr)). s < 0) \<longrightarrow>
      matchPerson fr h feature = Inr ([], [], 0)"
  proof
    assume a: "validPointers h (persons fr) \<and> (\<forall>s\<in>set (allScores feature h (persons fr)). s < 0)"
    then have wf: "validPointers h (persons fr)" by simp
    from matchPersons_char [OF wf, of feature "[]" "[]" 0]
    obtain pid pname conf where run: "matchPerson fr h feature = Inr (pid, pname, conf)"
      and d: "(conf = 0 \<and> pid = [] \<and> pname = []) \<or>
        (0 < conf \<and> (\<exists>(k, a)\<in>set (persons fr). \<exists>p. objs h a = Some p \<and>
            conf \<in> set (sampleScores feature h p) \<and> pid = ID p \<and> pname = Name p))"
      unfolding matchPerson_def by blast
    from d show "matchPerson fr h feature = Inr ([], [], 0)"
    proof
      assume "conf = 0 \<and> pid = [] \<and> pname = []"
      with run show ?thesis by simp
    next
      assume "0 < conf \<and> (\<exists>(k, a)\<in>set (persons fr). \<exists>p. objs h a = Some p \<and>
            conf \<in> set (sampleScores feature h p) \<and> pid = ID p \<and> pname = Name p)"
      then obtain k a p where pos: "0 < conf" and "(k, a) \<in> set (persons fr)" "objs h a = Some p"
        "conf \<in> set (sampleScores feature h p)" by auto
      then have "conf \<in> set (allScores feature h (persons fr))"
        by (force simp: allScores_def)
      with a have "conf < 0" by blast
      with pos show ?thesis by simp
    qed
  qed
qed

theorem confidence_nonnegative_witness:
  "validPointers ex_heap (persons ex_fr_A) \<and>
   allScores [-1, 0, 0] ex_heap (persons ex_fr_A) = [-1] \<and>
   sampleScores [-1, 0, 0] ex_heap
       \<lparr>ID = ''A'', Name = ''Alice'', Features = [\<lparr>PersonID = ''A'', Feature = 1\<rparr>]\<rparr> = [-1] \<and>
   matchSamples [-1, 0, 0] ex_heap
       \<lparr>ID = ''A'', Name = ''Alice'', Features = [\<lparr>PersonID = ''A'', Feature = 1\<rparr>]\<rparr>
       [\<lparr>PersonID = ''A'', Feature = 1\<rparr>] (''B'', ''Bob'', 0) = (''B'', ''Bob'', 0) \<and>
   matchPerson ex_fr_A ex_heap [-1, 0, 0] = Inr ([], [], 0) \<and>
   Recognize ex_fr_A ex_heap (ex_img [-1, 0, 0]) =
     Inr [\<lparr>R_PersonID = ''unknown'', R_PersonName = ''Unknown'', Confidence = 0,
           BoundingBox = \<lparr>MinX = 50, MinY = 50, MaxX = 150, MaxY = 150\<rparr>\<rparr>]"
  using confidence_nonnegative [of ex_fr_A ex_heap "[-1, 0, 0]" "ex_img [-1, 0, 0]"
      "\<lparr>ID = ''A'', Name = ''Alice'', Features = [\<lparr>PersonID = ''A'', Feature = 1\<rparr>]\<rparr>"
      0 "''B''" "''Bob''"]
  by (simp add: validPointers_def allScores_def sampleScores_def ex_defs cosineSimilarity_def
      Recognize_def DetectFaces_def detRect_def Rect_def ExtractFeature_def
      normalizeFeature_def recognizeResult_def matchPerson_def signed_divide_int_def Let_def)

subsection \<open>Enrolling a sample\<close>

lemmas ex2_defs = ex_det_low_def ex_det_high_def ex_img2_def

lemma DetectFaces_find:
  "DetectFaces fr img \<noteq> [] \<Longrightarrow>
   \<exists>det. find (\<lambda>det. Q det > QualityThreshold (pigoParams fr)) (Cascade img) = Some det \<and>
         (\<exists>faces. DetectFaces fr img = detRect det # faces)"
proof -
  have "map f (filter P xs) \<noteq> [] \<Longrightarrow>
        \<exists>x. find P xs = Some x \<and> (\<exists>ys. map f (filter P xs) = f x # ys)" for f :: "Detection \<Rightarrow> Rectangle" and P xs
    by (induction xs) auto
  then show "DetectFaces fr img \<noteq> [] \<Longrightarrow> ?thesis"
    unfolding DetectFaces_def by blast
qed

lemma ex_heap_ok: "heapOK ex_heap"
  by (auto simp: heapOK_def ex_heap_def split: if_splits)

text \<open>
  Claim C2, amended. \<open>AddFaceSample\<close> does not compare the length of the embedding with
  \<open>FeatureDim\<close>. For every identity present in the registry, when the conversion of the
  image succeeds, a face is detected and the extraction yields an embedding, of whatever
  length, \<open>AddFaceSample\<close> returns no error and the identity's samples are the former
  ones followed by the new embedding.
\<close>

theorem AddFaceSample_any_dimension:
  assumes present: "map_of (persons fr) personID = Some person"
    and obj: "objs h person = Some p"
    and ok: "heapOK h"
    and conv: "ToImage img"
    and faces: "DetectFaces fr img = face0 # faces"
    and ext: "ExtractFeature fr (Region img face0) = Inr feature"
  shows "\<exists>h' p'. AddFaceSample fr h personID img = Inr h' \<and>
     objs h' person = Some p' \<and> ID p' = ID p \<and> Name p' = Name p \<and>
     map (featureVal h') (Features p') = map (featureVal h) (Features p) @ [(personID, feature)] \<and>
     GetSampleCount fr h' personID = Inr (Suc (length (Features p)))"
proof -
  let ?p' = "p\<lparr>Features := Features p @ [\<lparr>PersonID = personID, Feature = nxt h\<rparr>]\<rparr>"
  let ?h' = "h\<lparr>objs := (objs h)(person \<mapsto> ?p'), arrs := (arrs h)(nxt h := feature),
               nxt := Suc (nxt h)\<rparr>"
  have run: "AddFaceSample fr h personID img = Inr ?h'"
    using present obj conv faces ext by (simp add: AddFaceSample_def Let_def)
  have old: "\<forall>f\<in>set (Features p). Feature f \<noteq> nxt h"
    using ok obj unfolding heapOK_def by fastforce
  then have vals: "map (featureVal ?h') (Features p) = map (featureVal h) (Features p)"
    by (simp add: featureVal_def)
  have "map (featureVal ?h') (Features ?p') =
      map (featureVal h) (Features p) @ [(personID, feature)]"
    using vals by (simp add: featureVal_def)
  moreover have "GetSampleCount fr ?h' personID = Inr (Suc (length (Features p)))"
    using present by (simp add: GetSampleCount_def)
  moreover have "objs ?h' person = Some ?p'" by simp
  ultimately show ?thesis using run by auto
qed

theorem AddFaceSample_any_dimension_witness:
  "map_of (persons ex_fr) ''A'' = Some 0 \<and>
   objs ex_heap 0 = Some \<lparr>ID = ''A'', Name = ''Alice'', Features = [\<lparr>PersonID = ''A'', Feature = 1\<rparr>]\<rparr> \<and>
   heapOK ex_heap \<and> ToImage (ex_img [1, 0]) \<and>
   DetectFaces ex_fr (ex_img [1, 0]) = [detRect ex_det] \<and>
   ExtractFeature ex_fr (Region (ex_img [1, 0]) (detRect ex_det)) = Inr [1, 0] \<and>
   int (length [1, 0 :: real]) \<noteq> FeatureDim (modelConfig ex_fr) \<and>
   (\<exists>h' p'. AddFaceSample ex_fr ex_heap ''A'' (ex_img [1, 0]) = Inr h' \<and>
      objs h' 0 = Some p' \<and>
      map (featureVal h') (Features p') = [(''A'', [1, 0, 0]), (''A'', [1, 0])] \<and>
      GetSampleCount ex_fr h' ''A'' = Inr 2)"
proof -
  have a: "map_of (persons ex_fr) ''A'' = Some 0" by (simp add: ex_defs)
  have b: "objs ex_heap 0 =
      Some \<lparr>ID = ''A'', Name = ''Alice'', Features = [\<lparr>PersonID = ''A'', Feature = 1\<rparr>]\<rparr>"
    by (simp add: ex_defs)
  have c: "ToImage (ex_img [1, 0])" by (simp add: ex_defs)
  have d: "DetectFaces ex_fr (ex_img [1, 0]) = detRect ex_det # []"
    by (simp add: ex_defs DetectFaces_def)
  have e: "ExtractFeature ex_fr (Region (ex_img [1, 0]) (detRect ex_det)) = Inr [1, 0]"
    by (simp add: ex_defs ExtractFeature_def normalizeFeature_def)
  have f: "int (length [1, 0 :: real]) \<noteq> FeatureDim (modelConfig ex_fr)"
    by (simp add: ex_defs)
  have g: "map (featureVal ex_heap)
      (Features \<lparr>ID = ''A'', Name = ''Alice'', Features = [\<lparr>PersonID = ''A'', Feature = 1\<rparr>]\<rparr>) =
      [(''A'', [1, 0, 0])]"
    by (simp add: ex_defs featureVal_def)
  from AddFaceSample_any_dimension [OF a b ex_heap_ok c d e] g a b c d e f ex_heap_ok
  show ?thesis by auto
qed

text \<open>
  Claim C2 as stated fails: with \<open>FeatureDim = 128\<close> and an encoder output of length 2,
  \<open>AddFaceSample\<close> returns no error and the sample count of the identity goes from 1
  to 2.
\<close>

theorem AddFaceSample_any_dimension_counterexample:
  "int (length [1, 0 :: real]) \<noteq> FeatureDim (modelConfig ex_fr) \<and>
   ExtractFeature ex_fr (Region (ex_img [1, 0]) (detRect ex_det)) = Inr [1, 0] \<and>
   GetSampleCount ex_fr ex_heap ''A'' = Inr 1 \<and>
   (case AddFaceSample ex_fr ex_heap ''A'' (ex_img [1, 0]) of
      Inl e \<Rightarrow> False
    | Inr h' \<Rightarrow> GetSampleCount ex_fr h' ''A'' = Inr 2 \<and>
        personVal h' 0 = Some (''A'', ''Alice'', [(''A'', [1, 0, 0]), (''A'', [1, 0])]))"
  by (simp add: ex_defs DetectFaces_def detRect_def Rect_def ExtractFeature_def
      normalizeFeature_def signed_divide_int_def Let_def AddFaceSample_def personVal_def
      featureVal_def GetSampleCount_def)

text \<open>
  Claim C4, amended. For every image in which \<open>DetectFaces\<close> returns one or more
  regions, \<open>AddFaceSample\<close> (for an identity present in the registry and an image whose
  conversion succeeds) encodes exactly the first region returned: the region of the
  first detection, in the order of the detector, whose quality exceeds
  \<open>QualityThreshold\<close>.
\<close>

theorem AddFaceSample_first_region:
  assumes present: "map_of (persons fr) personID = Some person"
    and conv: "ToImage img"
    and faces: "DetectFaces fr img \<noteq> []"
  shows "\<exists>det. find (\<lambda>det. Q det > QualityThreshold (pigoParams fr)) (Cascade img) = Some det \<and>
     AddFaceSample fr h personID img =
       (case ExtractFeature fr (Region img (detRect det)) of
          Inl err \<Rightarrow> Inl (ExtractFailed err)
        | Inr feature \<Rightarrow>
            (case objs h person of
               None \<Rightarrow> Inl NilDereference
             | Some p \<Rightarrow>
                 Inr (h\<lparr>objs := (objs h)(person \<mapsto>
                          p\<lparr>Features := Features p @
                               [\<lparr>PersonID = personID, Feature = nxt h\<rparr>]\<rparr>),
                        arrs := (arrs h)(nxt h := feature),
                        nxt := Suc (nxt h)\<rparr>)))"
proof -
  from DetectFaces_find [OF faces] obtain det rest
    where f: "find (\<lambda>det. Q det > QualityThreshold (pigoParams fr)) (Cascade img) = Some det"
      and d: "DetectFaces fr img = detRect det # rest"
    by blast
  have "AddFaceSample fr h personID img =
       (case ExtractFeature fr (Region img (detRect det)) of
          Inl err \<Rightarrow> Inl (ExtractFailed err)
        | Inr feature \<Rightarrow>
            (case objs h person of
               None \<Rightarrow> Inl NilDereference
             | Some p \<Rightarrow>
                 Inr (h\<lparr>objs := (objs h)(person \<mapsto>
                          p\<lparr>Features := Features p @
                               [\<lparr>PersonID = personID, Feature = nxt h\<rparr>]\<rparr>),
                        arrs := (arrs h)(nxt h := feature),
                        nxt := Suc (nxt h)\<rparr>)))"
    using present conv d by (simp add: AddFaceSample_def Let_def split: sum.splits option.splits)
  with f show ?thesis by blast
qed

theorem AddFaceSample_first_region_witness:
  "map_of (persons ex_fr) ''A'' = Some 0 \<and> ToImage ex_img2 \<and> DetectFaces ex_fr ex_img2 \<noteq> [] \<and>
   find (\<lambda>det. Q det > QualityThreshold (pigoParams ex_fr)) (Cascade ex_img2) = Some ex_det_low \<and>
   AddFaceSample ex_fr ex_heap ''A'' ex_img2 =
     Inr (ex_heap\<lparr>objs := (objs ex_heap)(0 \<mapsto>
            \<lparr>ID = ''A'', Name = ''Alice'',
             Features = [\<lparr>PersonID = ''A'', Feature = 1\<rparr>, \<lparr>PersonID = ''A'', Feature = 4\<rparr>]\<rparr>),
          arrs := (arrs ex_heap)(4 := [1, 0]), nxt := 5\<rparr>)"
  using AddFaceSample_first_region [of ex_fr "''A''" 0 ex_img2 ex_heap]
  by (simp add: ex_defs ex2_defs DetectFaces_def detRect_def Rect_def ExtractFeature_def
      normalizeFeature_def signed_divide_int_def Let_def)

text \<open>
  Claim C4 as stated fails: of two detections with qualities 6 and 10, the second also
  the larger, \<open>AddFaceSample\<close> encodes the region of the first.
\<close>

theorem AddFaceSample_first_region_counterexample:
  "Q ex_det_low < Q ex_det_high \<and>
   DetectFaces ex_fr ex_img2 = [detRect ex_det_low, detRect ex_det_high] \<and>
   ExtractFeature ex_fr (Region ex_img2 (detRect ex_det_low)) = Inr [1, 0] \<and>
   ExtractFeature ex_fr (Region ex_img2 (detRect ex_det_high)) = Inr [0, 1] \<and>
   (case AddFaceSample ex_fr ex_heap ''A'' ex_img2 of
      Inl e \<Rightarrow> False
    | Inr h' \<Rightarrow> personVal h' 0 = Some (''A'', ''Alice'', [(''A'', [1, 0, 0]), (''A'', [1, 0])]))"
  by (simp add: ex_defs ex2_defs DetectFaces_def detRect_def Rect_def ExtractFeature_def
      normalizeFeature_def signed_divide_int_def Let_def AddFaceSample_def personVal_def
      featureVal_def)

subsection \<open>Allocation and the per-identity file backend\<close>

lemmas ex3_defs = ex_val_A_def ex_val_B_def ex_codec_def ex_fs_def

lemma allocFeatures_props:
  "allocFeatures h vs = (fs, h') \<Longrightarrow>
   objs h' = objs h \<and> nxt h' = nxt h + length vs \<and>
   map (featureVal h') fs = vs \<and>
   (\<forall>a<nxt h. arrs h' a = arrs h a) \<and>
   (\<forall>f\<in>set fs. nxt h \<le> Feature f \<and> Feature f < nxt h')"
proof (induction vs arbitrary: h fs h')
  case Nil
  then show ?case by simp
next
  case (Cons v rest)
  obtain pid xs where v: "v = (pid, xs)" by (cases v)
  let ?h1 = "h\<lparr>arrs := (arrs h)(nxt h := xs), nxt := Suc (nxt h)\<rparr>"
  obtain fs1 h2 where r: "allocFeatures ?h1 rest = (fs1, h2)"
    by (cases "allocFeatures ?h1 rest")
  from Cons.prems v r have fs: "fs = \<lparr>PersonID = pid, Feature = nxt h\<rparr> # fs1" and h': "h' = h2"
    by (simp_all add: Let_def)
  from Cons.IH [OF r]
  have o: "objs h2 = objs ?h1" and n: "nxt h2 = nxt ?h1 + length rest"
    and m: "map (featureVal h2) fs1 = rest"
    and fr: "\<forall>a<nxt ?h1. arrs h2 a = arrs ?h1 a"
    and rg: "\<forall>f\<in>set fs1. nxt ?h1 \<le> Feature f \<and> Feature f < nxt h2"
    by auto
  have first: "arrs h2 (nxt h) = xs" using fr by simp
  have "objs h' = objs h" using o h' by simp
  moreover have "nxt h' = nxt h + length (v # rest)" using n h' by simp
  moreover have "map (featureVal h') fs = v # rest"
    using m first fs h' v by (simp add: featureVal_def)
  moreover have "\<forall>a<nxt h. arrs h' a = arrs h a" using fr h' by simp
  moreover have "\<forall>f\<in>set fs. nxt h \<le> Feature f \<and> Feature f < nxt h'"
    using rg fs h' n by auto
  ultimately show ?case by blast
qed

lemma allocPerson_props:
  assumes "allocPerson h v = (a, h')"
  shows "personVal h' a = Some v"
    and "nxt h \<le> a" and "a < nxt h'"
    and "\<forall>b<nxt h. objs h' b = objs h b \<and> arrs h' b = arrs h b"
    and "\<exists>p. objs h' a = Some p \<and> (\<forall>f\<in>set (Features p). Feature f < nxt h')"
proof -
  obtain ident name feats where v: "v = (ident, name, feats)" by (cases v)
  obtain fs h1 where af: "allocFeatures h feats = (fs, h1)" by (cases "allocFeatures h feats")
  from assms v af have a: "a = nxt h1"
    and h': "h' = h1\<lparr>objs := (objs h1)(nxt h1 \<mapsto> \<lparr>ID = ident, Name = name, Features = fs\<rparr>),
                    nxt := Suc (nxt h1)\<rparr>"
    by (auto simp: allocPerson_def Let_def)
  note p = allocFeatures_props [OF af]
  have fv: "map (featureVal h') fs = map (featureVal h1) fs"
    using h' by (simp add: featureVal_def)
  show "personVal h' a = Some v"
    using a h' v p fv by (simp add: personVal_def)
  show "nxt h \<le> a" using a p by simp
  show "a < nxt h'" using a h' by simp
  show "\<forall>b<nxt h. objs h' b = objs h b \<and> arrs h' b = arrs h b"
    using h' p by auto
  show "\<exists>p. objs h' a = Some p \<and> (\<forall>f\<in>set (Features p). Feature f < nxt h')"
    using a h' p by auto
qed

lemma personVal_frame:
  assumes "objs h b = Some p" and "b < n" and "\<forall>f\<in>set (Features p). Feature f < n"
    and "\<forall>x<n. objs h' x = objs h x \<and> arrs h' x = arrs h x"
  shows "personVal h' b = personVal h b"
proof -
  have "map (featureVal h') (Features p) = map (featureVal h) (Features p)"
    using assms(3,4) by (simp add: featureVal_def)
  then show ?thesis using assms(1,2,4) by (simp add: personVal_def)
qed

lemma extScan_suffix:
  "extScan r acc = e \<Longrightarrow> e \<noteq> [] \<Longrightarrow> \<exists>pre. rev r @ acc = pre @ e"
proof (induction r arbitrary: acc)
  case Nil
  then show ?case by simp
next
  case (Cons ch cs)
  show ?case
  proof (cases "ch = CHR ''/''")
    case True
    with Cons.prems show ?thesis by simp
  next
    case False
    show ?thesis
    proof (cases "ch = CHR ''.''")
      case True
      with Cons.prems False have "e = ch # acc" by simp
      then show ?thesis by simp
    next
      case dot: False
      with Cons.prems False have "extScan cs (ch # acc) = e" by simp
      from Cons.IH [OF this Cons.prems(2)] show ?thesis by simp
    qed
  qed
qed

lemma Ext_json_name:
  assumes "Ext name = ''.json''"
  shows "take (length name - 5) name @ ''.json'' = name"
proof -
  from extScan_suffix [of "rev name" "[]" "''.json''"] assms
  obtain pre where "name = pre @ ''.json''" by (auto simp: Ext_def)
  then show ?thesis by simp
qed


lemma FileStorage_loadAll_props:
  assumes d: "distinct (map fst (dir s))"
  shows "set files \<subseteq> set (dir s) \<Longrightarrow> FileStorage_loadAll c s h files = (ps, h') \<Longrightarrow>
    map (personVal h') ps = map Some (parsedPersons c files) \<and> nxt h \<le> nxt h' \<and>
    (\<forall>b<nxt h. objs h' b = objs h b \<and> arrs h' b = arrs h b)"
proof (induction files arbitrary: h ps h')
  case Nil
  then show ?case by simp
next
  case (Cons entry files)
  obtain name nd where entry: "entry = (name, nd)" by (cases entry)
  from Cons.prems(1) have sub: "set files \<subseteq> set (dir s)" by simp
  show ?case
  proof (cases "nd = Directory \<or> Ext name \<noteq> ''.json''")
    case True
    with Cons.prems(2) entry have r: "FileStorage_loadAll c s h files = (ps, h')" by auto
    have "parsedPersons c (entry # files) = parsedPersons c files"
      using True entry by (auto split: node.splits)
    with Cons.IH [OF sub r] show ?thesis by simp
  next
    case False
    then have ext: "Ext name = ''.json''" and nodir: "nd \<noteq> Directory" by simp_all
    have path: "getPersonPath s (take (length name - 5) name) = name"
      using Ext_json_name [OF ext] by (simp add: getPersonPath_def)
    from Cons.prems(1) entry have "(name, nd) \<in> set (dir s)" by simp
    with d have look: "map_of (dir s) name = Some nd" by simp
    show ?thesis
    proof (cases "\<exists>data v. nd = File data \<and> unmarshalPerson c data = Some v")
      case True
      then obtain data v where nd: "nd = File data" and v: "unmarshalPerson c data = Some v"
        by blast
      obtain a h1 where al: "allocPerson h v = (a, h1)" by (cases "allocPerson h v")
      have lp: "FileStorage_LoadPerson c s h (take (length name - 5) name) = Inr (a, h1)"
        using path look nd v al by (simp add: FileStorage_LoadPerson_def)
      obtain ps1 h2 where r: "FileStorage_loadAll c s h1 files = (ps1, h2)"
        by (cases "FileStorage_loadAll c s h1 files")
      from Cons.prems(2) entry False lp r have ps: "ps = a # ps1" and h': "h' = h2"
        by (simp_all add: Let_def)
      note ih = Cons.IH [OF sub r]
      note ap = allocPerson_props [OF al]
      from ap(5) obtain p where p: "objs h1 a = Some p"
        and pf: "\<forall>f\<in>set (Features p). Feature f < nxt h1" by blast
      have "personVal h2 a = personVal h1 a"
        using personVal_frame [OF p ap(3) pf] ih by blast
      then have va: "personVal h2 a = Some v" using ap(1) by simp
      have pp: "parsedPersons c (entry # files) = v # parsedPersons c files"
        using entry nd ext v by simp
      have le: "nxt h \<le> nxt h1" using ap(2,3) by linarith
      have fr: "\<forall>b<nxt h. objs h2 b = objs h b \<and> arrs h2 b = arrs h b"
        using ih ap(4) le by (metis order_less_le_trans)
      from va pp ih le fr ps h' show ?thesis by simp
    next
      case False
      then have lp: "\<exists>err. FileStorage_LoadPerson c s h (take (length name - 5) name) = Inl err"
        using path look nodir
        by (cases nd) (auto simp: FileStorage_LoadPerson_def split: option.splits)
      then obtain err where
        "FileStorage_LoadPerson c s h (take (length name - 5) name) = Inl err" by blast
      with Cons.prems(2) entry ext nodir
      have r: "FileStorage_loadAll c s h files = (ps, h')" by (simp add: Let_def)
      have "parsedPersons c (entry # files) = parsedPersons c files"
        using False entry by (auto split: node.splits option.splits)
      with Cons.IH [OF sub r] show ?thesis by simp
    qed
  qed
qed

lemma parsedPersons_mem:
  "(name, File data) \<in> set files \<Longrightarrow> Ext name = ''.json'' \<Longrightarrow>
   unmarshalPerson c data = Some v \<Longrightarrow> v \<in> set (parsedPersons c files)"
  by (induction files) (auto split: node.splits option.splits)

text \<open>
  Claim C7. When the base directory can be listed, \<open>FileStorage.LoadAllPersons\<close>
  succeeds and returns exactly the records of the \<open>*.json\<close> files that parse, in the
  order of the listing; directories, unreadable files and files that do not parse are
  skipped. So the record of every valid file is among the results, whatever the other
  files hold.
\<close>

theorem FileStorage_LoadAllPersons_skips_corrupt:
  assumes ls: "listable s" and d: "distinct (map fst (dir s))"
  shows "\<exists>ps h'. FileStorage_LoadAllPersons c s h = Inr (ps, h') \<and>
     map (personVal h') ps = map Some (parsedPersons c (dir s)) \<and>
     (\<forall>name data v. (name, File data) \<in> set (dir s) \<and> Ext name = ''.json'' \<and>
         unmarshalPerson c data = Some v \<longrightarrow> Some v \<in> set (map (personVal h') ps))"
proof -
  obtain ps h' where r: "FileStorage_loadAll c s h (dir s) = (ps, h')"
    by (cases "FileStorage_loadAll c s h (dir s)")
  from FileStorage_loadAll_props [OF d _ r]
  have m: "map (personVal h') ps = map Some (parsedPersons c (dir s))" by simp
  have "FileStorage_LoadAllPersons c s h = Inr (ps, h')"
    using ls r by (simp add: FileStorage_LoadAllPersons_def)
  moreover have "\<forall>name data v. (name, File data) \<in> set (dir s) \<and> Ext name = ''.json'' \<and>
         unmarshalPerson c data = Some v \<longrightarrow> Some v \<in> set (map (personVal h') ps)"
    using m parsedPersons_mem by fastforce
  ultimately show ?thesis using m by blast
qed

theorem FileStorage_LoadAllPersons_skips_corrupt_witness:
  "listable ex_fs \<and> distinct (map fst (dir ex_fs)) \<and>
   unmarshalPerson ex_codec ''{garbage'' = None \<and>
   parsedPersons ex_codec (dir ex_fs) = [ex_val_A, ex_val_B] \<and>
   (\<exists>ps h'. FileStorage_LoadAllPersons ex_codec ex_fs ex_heap = Inr (ps, h') \<and>
      map (personVal h') ps = [Some ex_val_A, Some ex_val_B])"
proof -
  have a: "listable ex_fs" by (simp add: ex3_defs)
  have b: "distinct (map fst (dir ex_fs))" by (simp add: ex3_defs)
  have c: "parsedPersons ex_codec (dir ex_fs) = [ex_val_A, ex_val_B]"
    by (simp add: ex3_defs Ext_def)
  have d: "unmarshalPerson ex_codec ''{garbage'' = None" by (simp add: ex3_defs)
  from FileStorage_LoadAllPersons_skips_corrupt [OF a b, of ex_codec ex_heap] a b c d
  show ?thesis by auto
qed

subsection \<open>Saving and loading\<close>

lemmas ex4_defs = ex_ms_def ex_js_def ex_js_empty_def ex_ms_AB_def ex_mallory_def

lemma copyPerson_val:
  "objs h person = Some p \<Longrightarrow> copyPerson h p = (a, h1) \<Longrightarrow>
   a = nxt h \<and> personVal h1 a = personVal h person \<and> arrs h1 = arrs h \<and>
   nxt h1 = Suc (nxt h) \<and> objs h1 = (objs h)(nxt h \<mapsto> p)"
  by (auto simp: copyPerson_def Let_def personVal_def featureVal_def)

lemma personVal_cong:
  assumes "objs h' a = objs h a" and "arrs h' = arrs h"
  shows "personVal h' a = personVal h a"
proof -
  have "featureVal h' = featureVal h"
    using assms(2) by (intro ext) (simp add: featureVal_def)
  then show ?thesis using assms(1) by (simp add: personVal_def split: option.splits)
qed



subsection \<open>Independence of loaded records\<close>

lemma FileStorage_LoadPerson_heap_free:
  assumes "FileStorage_LoadPerson c s h ident = Inr (a, h1)"
  shows "\<exists>a' h3. FileStorage_LoadPerson c s h2 ident = Inr (a', h3) \<and>
           personVal h3 a' = personVal h1 a"
proof -
  from assms obtain data v where look: "map_of (dir s) (getPersonPath s ident) = Some (File data)"
    and v: "unmarshalPerson c data = Some v" and al: "allocPerson h v = (a, h1)"
    by (auto simp: FileStorage_LoadPerson_def split: option.splits node.splits)
  obtain a' h3 where al2: "allocPerson h2 v = (a', h3)" by (cases "allocPerson h2 v")
  have "FileStorage_LoadPerson c s h2 ident = Inr (a', h3)"
    using look v al2 by (simp add: FileStorage_LoadPerson_def)
  moreover have "personVal h3 a' = personVal h1 a"
    using allocPerson_props(1) [OF al] allocPerson_props(1) [OF al2] by simp
  ultimately show ?thesis by blast
qed

lemma FileStorage_LoadAllPersons_heap_free:
  assumes d: "distinct (map fst (dir s))"
    and l: "FileStorage_LoadAllPersons c s h = Inr (ps, h1)"
  shows "\<exists>ps' h3. FileStorage_LoadAllPersons c s h2 = Inr (ps', h3) \<and>
           map (personVal h3) ps' = map (personVal h1) ps"
proof -
  from l have ls: "listable s" and r: "FileStorage_loadAll c s h (dir s) = (ps, h1)"
    by (auto simp: FileStorage_LoadAllPersons_def split: if_splits)
  obtain ps' h3 where r2: "FileStorage_loadAll c s h2 (dir s) = (ps', h3)"
    by (cases "FileStorage_loadAll c s h2 (dir s)")
  have "map (personVal h3) ps' = map (personVal h1) ps"
    using FileStorage_loadAll_props [OF d _ r] FileStorage_loadAll_props [OF d _ r2] by simp
  moreover have "FileStorage_LoadAllPersons c s h2 = Inr (ps', h3)"
    using ls r2 by (simp add: FileStorage_LoadAllPersons_def)
  ultimately show ?thesis by blast
qed

lemma MemoryStorage_LoadPerson_fresh:
  assumes ok: "heapOK h" and l: "MemoryStorage_LoadPerson ms h ident = Inr (a, h1)"
  shows "objs h a = None \<and>
     (\<exists>a' h3. MemoryStorage_LoadPerson ms (setPerson h1 a p') ident = Inr (a', h3) \<and>
        personVal h3 a' = personVal h1 a)"
proof -
  from l obtain sp p where look: "map_of (m_persons ms) ident = Some sp"
    and obj: "objs h sp = Some p" and c1: "copyPerson h p = (a, h1)"
    by (auto simp: MemoryStorage_LoadPerson_def split: option.splits)
  note v1 = copyPerson_val [OF obj c1]
  from ok obj have lt: "sp < nxt h" unfolding heapOK_def by blast
  have fresh: "objs h a = None"
  proof (cases "objs h a")
    case None
    then show ?thesis .
  next
    case (Some q)
    with ok have "a < nxt h" unfolding heapOK_def by blast
    with v1 show ?thesis by simp
  qed
  let ?hm = "setPerson h1 a p'"
  have obj': "objs ?hm sp = Some p" using v1 lt obj by (simp add: setPerson_def)
  obtain a' h3 where c2: "copyPerson ?hm p = (a', h3)" by (cases "copyPerson ?hm p")
  note v2 = copyPerson_val [OF obj' c2]
  have load: "MemoryStorage_LoadPerson ms ?hm ident = Inr (a', h3)"
    using look obj' c2 by (simp add: MemoryStorage_LoadPerson_def)
  have e1: "personVal h1 a = personVal h sp" using v1 by blast
  have e2: "personVal h3 a' = personVal ?hm sp" using v2 by blast
  have e3: "personVal ?hm sp = personVal h sp"
    using obj obj' v1 by (intro personVal_cong) (simp_all add: setPerson_def)
  from load e1 e2 e3 fresh show ?thesis by simp
qed

lemma MemoryStorage_loadAll_props:
  "\<forall>(k, sp)\<in>set entries. sp < nxt h \<and> objs h sp \<noteq> None \<Longrightarrow>
   \<exists>ps h'. MemoryStorage_loadAll h entries = Inr (ps, h') \<and>
     map (personVal h') ps = map (\<lambda>(k, sp). personVal h sp) entries \<and>
     arrs h' = arrs h \<and> nxt h \<le> nxt h' \<and>
     (\<forall>b<nxt h. objs h' b = objs h b) \<and> (\<forall>a\<in>set ps. nxt h \<le> a \<and> a < nxt h')"
proof (induction entries arbitrary: h)
  case Nil
  then show ?case by simp
next
  case (Cons entry rest)
  obtain k sp where entry: "entry = (k, sp)" by (cases entry)
  from Cons.prems entry obtain p where lt: "sp < nxt h" and obj: "objs h sp = Some p"
    by auto
  obtain a h1 where c1: "copyPerson h p = (a, h1)" by (cases "copyPerson h p")
  note v1 = copyPerson_val [OF obj c1]
  have pre: "\<forall>(k, sp)\<in>set rest. sp < nxt h1 \<and> objs h1 sp \<noteq> None"
    using Cons.prems v1 by auto
  from Cons.IH [OF pre] obtain ps h'
    where r: "MemoryStorage_loadAll h1 rest = Inr (ps, h')"
      and m: "map (personVal h') ps = map (\<lambda>(k, sp). personVal h1 sp) rest"
      and ar: "arrs h' = arrs h1" and le: "nxt h1 \<le> nxt h'"
      and fr: "\<forall>b<nxt h1. objs h' b = objs h1 b"
      and rg: "\<forall>a\<in>set ps. nxt h1 \<le> a \<and> a < nxt h'"
    by blast
  have run: "MemoryStorage_loadAll h (entry # rest) = Inr (a # ps, h')"
    using entry obj c1 r by simp
  have va: "personVal h' a = personVal h sp"
  proof -
    have "personVal h' a = personVal h1 a"
      using fr ar v1 by (intro personVal_cong) simp_all
    moreover have "personVal h1 a = personVal h sp" using v1 by blast
    ultimately show ?thesis by simp
  qed
  have rest_vals: "map (\<lambda>(k, sp). personVal h1 sp) rest = map (\<lambda>(k, sp). personVal h sp) rest"
  proof (rule map_cong [OF refl])
    fix e assume e: "e \<in> set rest"
    obtain k' sp' where e': "e = (k', sp')" by (cases e)
    with e Cons.prems have "sp' < nxt h" by auto
    then have "personVal h1 sp' = personVal h sp'"
      using v1 by (intro personVal_cong) simp_all
    with e' show "(case e of (k, sp) \<Rightarrow> personVal h1 sp) = (case e of (k, sp) \<Rightarrow> personVal h sp)"
      by simp
  qed
  have m': "map (personVal h') (a # ps) = map (\<lambda>(k, sp). personVal h sp) (entry # rest)"
    using va m rest_vals entry by simp
  have ar': "arrs h' = arrs h" using ar v1 by simp
  have le': "nxt h \<le> nxt h'" using le v1 by simp
  have fr': "\<forall>b<nxt h. objs h' b = objs h b" using fr v1 by simp
  have rg': "\<forall>x\<in>set (a # ps). nxt h \<le> x \<and> x < nxt h'" using rg v1 le by auto
  from run m' ar' le' fr' rg' show ?case by blast
qed

lemma MemoryStorage_LoadAllPersons_fresh:
  assumes ok: "heapOK h" and vp: "validPointers h (m_persons ms)"
  shows "\<exists>ps h1. MemoryStorage_LoadAllPersons ms h = Inr (ps, h1) \<and>
     (\<forall>a\<in>set ps. objs h a = None \<and>
        (\<forall>p'. \<exists>ps' h3. MemoryStorage_LoadAllPersons ms (setPerson h1 a p') = Inr (ps', h3) \<and>
           map (personVal h3) ps' = map (personVal h1) ps))"
proof -
  have pre: "\<forall>(k, sp)\<in>set (m_persons ms). sp < nxt h \<and> objs h sp \<noteq> None"
    using ok vp unfolding heapOK_def validPointers_def list_all_iff by fastforce
  from MemoryStorage_loadAll_props [OF pre] obtain ps h1
    where r: "MemoryStorage_loadAll h (m_persons ms) = Inr (ps, h1)"
      and m: "map (personVal h1) ps = map (\<lambda>(k, sp). personVal h sp) (m_persons ms)"
      and ar: "arrs h1 = arrs h" and le: "nxt h \<le> nxt h1"
      and fr: "\<forall>b<nxt h. objs h1 b = objs h b"
      and rg: "\<forall>a\<in>set ps. nxt h \<le> a \<and> a < nxt h1"
    by blast
  have each: "objs h a = None \<and>
        (\<forall>p'. \<exists>ps' h3. MemoryStorage_LoadAllPersons ms (setPerson h1 a p') = Inr (ps', h3) \<and>
           map (personVal h3) ps' = map (personVal h1) ps)" if a: "a \<in> set ps" for a
  proof
    from a rg have ge: "nxt h \<le> a" by blast
    show "objs h a = None"
    proof (cases "objs h a")
      case None
      then show ?thesis .
    next
      case (Some q)
      with ok have "a < nxt h" unfolding heapOK_def by blast
      with ge show ?thesis by simp
    qed
    show "\<forall>p'. \<exists>ps' h3. MemoryStorage_LoadAllPersons ms (setPerson h1 a p') = Inr (ps', h3) \<and>
           map (personVal h3) ps' = map (personVal h1) ps"
    proof
      fix p'
      let ?hm = "setPerson h1 a p'"
      have same: "objs ?hm sp = objs h sp" if "sp < nxt h" for sp
        using that ge fr by (simp add: setPerson_def)
      have pre': "\<forall>(k, sp)\<in>set (m_persons ms). sp < nxt ?hm \<and> objs ?hm sp \<noteq> None"
        using pre le same by (fastforce simp: setPerson_def)
      from MemoryStorage_loadAll_props [OF pre'] obtain ps' h3
        where r': "MemoryStorage_loadAll ?hm (m_persons ms) = Inr (ps', h3)"
          and m': "map (personVal h3) ps' = map (\<lambda>(k, sp). personVal ?hm sp) (m_persons ms)"
        by blast
      have "map (\<lambda>(k, sp). personVal ?hm sp) (m_persons ms) =
            map (\<lambda>(k, sp). personVal h sp) (m_persons ms)"
      proof (rule map_cong [OF refl])
        fix e assume e: "e \<in> set (m_persons ms)"
        obtain k' sp' where e': "e = (k', sp')" by (cases e)
        with e pre have "sp' < nxt h" by auto
        then have "personVal ?hm sp' = personVal h sp'"
          using same ar by (intro personVal_cong) (simp_all add: setPerson_def)
        with e' show "(case e of (k, sp) \<Rightarrow> personVal ?hm sp) =
                      (case e of (k, sp) \<Rightarrow> personVal h sp)"
          by simp
      qed
      with m m' have "map (personVal h3) ps' = map (personVal h1) ps" by simp
      with r' show "\<exists>ps' h3. MemoryStorage_LoadAllPersons ms ?hm = Inr (ps', h3) \<and>
           map (personVal h3) ps' = map (personVal h1) ps"
        by (simp add: MemoryStorage_LoadAllPersons_def)
    qed
  qed
  from r each show ?thesis by (simp add: MemoryStorage_LoadAllPersons_def)
qed

text \<open>
  What holds of the two backends that copy. \<open>FileStorage.LoadPerson\<close> and
  \<open>LoadAllPersons\<close> return newly decoded persons whose content depends on the files
  alone: whatever happens to the store in between, a later load returns the same
  records. \<open>MemoryStorage.LoadPerson\<close> and \<open>LoadAllPersons\<close> return newly allocated
  \<open>Person\<close> objects: after an assignment to the fields of a returned \<open>Person\<close> a later
  load returns the same records as before. \<open>JSONStorage.LoadPerson\<close> and
  \<open>LoadAllPersons\<close> return the pointers stored in the backend.
\<close>

lemma loaded_persons_independent:
  "(\<forall>a h1. FileStorage_LoadPerson c fs h ident = Inr (a, h1) \<longrightarrow>
      (\<exists>a' h3. FileStorage_LoadPerson c fs h2 ident = Inr (a', h3) \<and>
         personVal h3 a' = personVal h1 a)) \<and>
   (\<forall>ps h1. distinct (map fst (dir fs)) \<and> FileStorage_LoadAllPersons c fs h = Inr (ps, h1) \<longrightarrow>
      (\<exists>ps' h3. FileStorage_LoadAllPersons c fs h2 = Inr (ps', h3) \<and>
         map (personVal h3) ps' = map (personVal h1) ps)) \<and>
   (\<forall>a h1. heapOK h \<and> MemoryStorage_LoadPerson ms h ident = Inr (a, h1) \<longrightarrow>
      objs h a = None \<and>
      (\<forall>p'. \<exists>a' h3. MemoryStorage_LoadPerson ms (setPerson h1 a p') ident = Inr (a', h3) \<and>
         personVal h3 a' = personVal h1 a)) \<and>
   (heapOK h \<and> validPointers h (m_persons ms) \<longrightarrow>
      (\<exists>ps h1. MemoryStorage_LoadAllPersons ms h = Inr (ps, h1) \<and>
         (\<forall>a\<in>set ps. objs h a = None \<and>
            (\<forall>p'. \<exists>ps' h3.
               MemoryStorage_LoadAllPersons ms (setPerson h1 a p') = Inr (ps', h3) \<and>
               map (personVal h3) ps' = map (personVal h1) ps)))) \<and>
   (\<forall>a. JSONStorage_LoadPerson js ident = Inr a \<longrightarrow> map_of (j_persons js) ident = Some a) \<and>
   JSONStorage_LoadAllPersons js = map snd (j_persons js)"
proof (intro conjI)
  show "\<forall>a h1. FileStorage_LoadPerson c fs h ident = Inr (a, h1) \<longrightarrow>
      (\<exists>a' h3. FileStorage_LoadPerson c fs h2 ident = Inr (a', h3) \<and>
         personVal h3 a' = personVal h1 a)"
    using FileStorage_LoadPerson_heap_free by blast
  show "\<forall>ps h1. distinct (map fst (dir fs)) \<and> FileStorage_LoadAllPersons c fs h = Inr (ps, h1) \<longrightarrow>
      (\<exists>ps' h3. FileStorage_LoadAllPersons c fs h2 = Inr (ps', h3) \<and>
         map (personVal h3) ps' = map (personVal h1) ps)"
    using FileStorage_LoadAllPersons_heap_free by blast
  show "\<forall>a h1. heapOK h \<and> MemoryStorage_LoadPerson ms h ident = Inr (a, h1) \<longrightarrow>
      objs h a = None \<and>
      (\<forall>p'. \<exists>a' h3. MemoryStorage_LoadPerson ms (setPerson h1 a p') ident = Inr (a', h3) \<and>
         personVal h3 a' = personVal h1 a)"
    using MemoryStorage_LoadPerson_fresh by blast
  show "heapOK h \<and> validPointers h (m_persons ms) \<longrightarrow>
      (\<exists>ps h1. MemoryStorage_LoadAllPersons ms h = Inr (ps, h1) \<and>
         (\<forall>a\<in>set ps. objs h a = None \<and>
            (\<forall>p'. \<exists>ps' h3.
               MemoryStorage_LoadAllPersons ms (setPerson h1 a p') = Inr (ps', h3) \<and>
               map (personVal h3) ps' = map (personVal h1) ps)))"
    using MemoryStorage_LoadAllPersons_fresh by blast
  show "\<forall>a. JSONStorage_LoadPerson js ident = Inr a \<longrightarrow> map_of (j_persons js) ident = Some a"
    by (auto simp: JSONStorage_LoadPerson_def split: option.splits)
  show "JSONStorage_LoadAllPersons js = map snd (j_persons js)"
    by (simp add: JSONStorage_LoadAllPersons_def)
qed

lemma loaded_persons_independent_example:
  "heapOK ex_heap \<and> validPointers ex_heap (m_persons ex_ms_AB) \<and>
   distinct (map fst (dir ex_fs)) \<and>
   (\<exists>a h1 a' h3. FileStorage_LoadPerson ex_codec ex_fs ex_heap ''A'' = Inr (a, h1) \<and>
      FileStorage_LoadPerson ex_codec ex_fs (setPerson h1 a ex_mallory) ''A'' = Inr (a', h3) \<and>
      personVal h3 a' = personVal h1 a) \<and>
   (\<exists>ps h1 ps' h3. FileStorage_LoadAllPersons ex_codec ex_fs ex_heap = Inr (ps, h1) \<and>
      FileStorage_LoadAllPersons ex_codec ex_fs (setPerson h1 (hd ps) ex_mallory) = Inr (ps', h3) \<and>
      map (personVal h3) ps' = map (personVal h1) ps) \<and>
   (\<exists>h1 a' h3. MemoryStorage_LoadPerson ex_ms_AB ex_heap ''A'' = Inr (4, h1) \<and>
      MemoryStorage_LoadPerson ex_ms_AB (setPerson h1 4 ex_mallory) ''A'' = Inr (a', h3) \<and>
      personVal h3 a' = personVal h1 4) \<and>
   (\<exists>h1 ps' h3. MemoryStorage_LoadAllPersons ex_ms_AB ex_heap = Inr ([4, 5], h1) \<and>
      MemoryStorage_LoadAllPersons ex_ms_AB (setPerson h1 4 ex_mallory) = Inr (ps', h3) \<and>
      map (personVal h3) ps' = map (personVal h1) [4, 5]) \<and>
   JSONStorage_LoadPerson ex_js ''A'' = Inr 0 \<and> map_of (j_persons ex_js) ''A'' = Some 0"
proof -
  have ok: "heapOK ex_heap" by (rule ex_heap_ok)
  have vp: "validPointers ex_heap (m_persons ex_ms_AB)"
    by (simp add: validPointers_def ex_defs ex4_defs)
  have di: "distinct (map fst (dir ex_fs))" by (simp add: ex3_defs)
  obtain a h1 where fl: "FileStorage_LoadPerson ex_codec ex_fs ex_heap ''A'' = Inr (a, h1)"
    by (cases "allocPerson ex_heap ex_val_A")
       (simp add: FileStorage_LoadPerson_def getPersonPath_def ex3_defs)
  obtain ps g1 where fa: "FileStorage_LoadAllPersons ex_codec ex_fs ex_heap = Inr (ps, g1)"
    by (cases "FileStorage_loadAll ex_codec ex_fs ex_heap (dir ex_fs)")
       (simp add: FileStorage_LoadAllPersons_def ex3_defs)
  obtain m1 where ml: "MemoryStorage_LoadPerson ex_ms_AB ex_heap ''A'' = Inr (4, m1)"
    by (simp add: MemoryStorage_LoadPerson_def copyPerson_def ex_defs ex4_defs)
  obtain n1 where ma: "MemoryStorage_LoadAllPersons ex_ms_AB ex_heap = Inr ([4, 5], n1)"
    by (simp add: MemoryStorage_LoadAllPersons_def copyPerson_def ex_defs ex4_defs)
  have jl: "JSONStorage_LoadPerson ex_js ''A'' = Inr 0"
    by (simp add: JSONStorage_LoadPerson_def ex4_defs)
  note t1 = loaded_persons_independent [where c = ex_codec and fs = ex_fs and h = ex_heap
      and ident = "''A''" and ms = ex_ms_AB and js = ex_js
      and ?h2.0 = "setPerson h1 a ex_mallory"]
  note t2 = loaded_persons_independent [where c = ex_codec and fs = ex_fs and h = ex_heap
      and ident = "''A''" and ms = ex_ms_AB and js = ex_js
      and ?h2.0 = "setPerson g1 (hd ps) ex_mallory"]
  from t1 fl have c1: "\<exists>a' h3.
      FileStorage_LoadPerson ex_codec ex_fs (setPerson h1 a ex_mallory) ''A'' = Inr (a', h3) \<and>
      personVal h3 a' = personVal h1 a" by blast
  from t2 fa di have c2: "\<exists>ps' h3.
      FileStorage_LoadAllPersons ex_codec ex_fs (setPerson g1 (hd ps) ex_mallory) = Inr (ps', h3) \<and>
      map (personVal h3) ps' = map (personVal g1) ps" by blast
  from t1 ml ok have c3: "\<exists>a' h3.
      MemoryStorage_LoadPerson ex_ms_AB (setPerson m1 4 ex_mallory) ''A'' = Inr (a', h3) \<and>
      personVal h3 a' = personVal m1 4" by blast
  from t1 ok vp obtain qs k1 where q: "MemoryStorage_LoadAllPersons ex_ms_AB ex_heap = Inr (qs, k1)"
    and qa: "\<forall>a\<in>set qs. \<forall>p'. \<exists>ps' h3.
               MemoryStorage_LoadAllPersons ex_ms_AB (setPerson k1 a p') = Inr (ps', h3) \<and>
               map (personVal h3) ps' = map (personVal k1) qs"
    by blast
  from q ma have "qs = [4, 5]" "k1 = n1" by simp_all
  with qa have c4: "\<exists>ps' h3.
      MemoryStorage_LoadAllPersons ex_ms_AB (setPerson n1 4 ex_mallory) = Inr (ps', h3) \<and>
      map (personVal h3) ps' = map (personVal n1) [4, 5]" by simp
  from t1 jl have c5: "map_of (j_persons ex_js) ''A'' = Some 0" by blast
  from ok vp di fl c1 fa c2 ml c3 ma c4 jl c5 show ?thesis by blast
qed

text \<open>
  Claim C5: the persons returned by \<open>LoadPerson\<close> and \<open>LoadAllPersons\<close> of every
  backend are independent copies. \<open>JSONStorage\<close> breaks it: \<open>SavePerson\<close> stores the
  pointer it is given and \<open>LoadPerson\<close> and \<open>LoadAllPersons\<close> return the stored
  pointers, so after the caller assigns the name and the features of the person
  returned for A, a later load of A returns the changed person.
\<close>

theorem JSONStorage_load_returns_stored_pointer:
  "(case JSONStorage_SavePerson ex_codec ex_js_empty ex_heap 0 of
      Inl e \<Rightarrow> False
    | Inr (err, js) \<Rightarrow>
        err = None \<and> JSONStorage_LoadPerson js ''A'' = Inr 0 \<and>
        JSONStorage_LoadAllPersons js = [0]) \<and>
   JSONStorage_LoadPerson ex_js ''A'' = Inr 0 \<and>
   JSONStorage_LoadAllPersons ex_js = [0, 2] \<and>
   personVal ex_heap 0 = Some (''A'', ''Alice'', [(''A'', [1, 0, 0])]) \<and>
   personVal (setPerson ex_heap 0 ex_mallory) 0 = Some (''A'', ''Mallory'', [])"
  by (simp add: JSONStorage_SavePerson_def JSONStorage_save_def JSONStorage_LoadPerson_def
      JSONStorage_LoadAllPersons_def personVal_def featureVal_def setPerson_def
      ex_defs ex3_defs ex4_defs)

text \<open>
  \<open>MemoryStorage\<close> copies the entries of \<open>Features\<close>, not the vectors they point to: a
  write into a vector of a returned person shows in a later load.
\<close>

lemma MemoryStorage_LoadPerson_shares_arrays:
  "(case MemoryStorage_LoadPerson ex_ms_AB ex_heap ''A'' of
      Inl e \<Rightarrow> False
    | Inr (a, h1) \<Rightarrow>
        personVal h1 a = Some (''A'', ''Alice'', [(''A'', [1, 0, 0])]) \<and>
        map_option (map Feature \<circ> Features) (objs h1 a) = Some [1] \<and>
        (case MemoryStorage_LoadPerson ex_ms_AB (h1\<lparr>arrs := (arrs h1)(1 := [9, 9, 9])\<rparr>) ''A'' of
           Inl e \<Rightarrow> False
         | Inr (a', h3) \<Rightarrow> personVal h3 a' = Some (''A'', ''Alice'', [(''A'', [9, 9, 9])])))"
  by (simp add: MemoryStorage_LoadPerson_def copyPerson_def personVal_def featureVal_def
      ex_defs ex4_defs)

subsection \<open>Reading the registry\<close>

text \<open>
  Claim C3, amended. \<open>GetPerson\<close> and \<open>ListPersons\<close> return the pointers held by the
  registry, not copies: for an id present in the registry \<open>GetPerson\<close> returns the
  stored pointer, which is also among the pointers \<open>ListPersons\<close> returns, and after a
  caller assigns the fields of the \<open>Person\<close> behind it, the pointer that a later
  \<open>GetPerson\<close> returns leads to the assigned values.
\<close>

theorem GetPerson_returns_stored_pointer:
  assumes present: "map_of (persons fr) ident = Some person"
  shows "GetPerson fr ident = Inr person \<and>
         person \<in> set (ListPersons fr) \<and>
         ListPersons fr = map snd (persons fr) \<and>
         objs (setPerson h person p') person = Some p' \<and>
         personVal (setPerson h person p') person =
           Some (ID p', Name p', map (featureVal h) (Features p'))"
proof (intro conjI)
  show "GetPerson fr ident = Inr person" using present by (simp add: GetPerson_def)
  from present have "(ident, person) \<in> set (persons fr)" by (rule map_of_SomeD)
  then show "person \<in> set (ListPersons fr)" by (force simp: ListPersons_def)
  show "ListPersons fr = map snd (persons fr)" by (simp add: ListPersons_def)
  show "objs (setPerson h person p') person = Some p'" by (simp add: setPerson_def)
  have "featureVal (setPerson h person p') = featureVal h"
    by (intro ext) (simp add: featureVal_def setPerson_def)
  then show "personVal (setPerson h person p') person =
           Some (ID p', Name p', map (featureVal h) (Features p'))"
    by (simp add: personVal_def setPerson_def)
qed

theorem GetPerson_returns_stored_pointer_witness:
  "map_of (persons ex_fr) ''A'' = Some 0 \<and> GetPerson ex_fr ''A'' = Inr 0 \<and>
   0 \<in> set (ListPersons ex_fr) \<and>
   personVal (setPerson ex_heap 0 ex_mallory) 0 = Some (''A'', ''Mallory'', [])"
proof -
  have a: "map_of (persons ex_fr) ''A'' = Some 0" by (simp add: ex_defs)
  note t = GetPerson_returns_stored_pointer [OF a, of ex_heap ex_mallory]
  from t have g: "GetPerson ex_fr ''A'' = Inr 0" by blast
  from t have l: "0 \<in> set (ListPersons ex_fr)" by blast
  from t have "personVal (setPerson ex_heap 0 ex_mallory) 0 =
      Some (ID ex_mallory, Name ex_mallory, map (featureVal ex_heap) (Features ex_mallory))"
    by blast
  then have v: "personVal (setPerson ex_heap 0 ex_mallory) 0 = Some (''A'', ''Mallory'', [])"
    by (simp add: ex_mallory_def)
  from a g l v show ?thesis by blast
qed

text \<open>
  Claim C3 as stated fails: after the caller sets the name of the person returned by
  \<open>GetPerson\<close>, the person behind the pointer that \<open>GetPerson\<close> and \<open>ListPersons\<close>
  return has the new name.
\<close>

theorem GetPerson_returns_stored_pointer_counterexample:
  "GetPerson ex_fr ''A'' = Inr 0 \<and> ListPersons ex_fr = [0, 2] \<and>
   personVal ex_heap 0 = Some (''A'', ''Alice'', [(''A'', [1, 0, 0])]) \<and>
   personVal (setPerson ex_heap 0 ex_mallory) 0 = Some (''A'', ''Mallory'', [])"
  by (simp add: GetPerson_def ListPersons_def personVal_def featureVal_def setPerson_def
      ex_defs ex4_defs)

end
